theory Spec2Isabelle
  imports Complex_Main "HOL-Library.Multiset" "HOL-Library.Char_ord" "HOL-Library.List_Lexorder"
begin

section \<open>Values: datetimes and dictionary entries\<close>

text \<open>
  The program (\<^verbatim>\<open>gui.py\<close>) keeps its reminders as a Python list of dictionaries with the
  keys \<^verbatim>\<open>id\<close>, \<^verbatim>\<open>text\<close>, \<^verbatim>\<open>dateTime\<close> and \<^verbatim>\<open>notified\<close>. A dictionary is an association
  list in insertion order; a value is one of the scalars the program stores or reads from
  its JSON file. Python's \<^verbatim>\<open>int\<close> and \<^verbatim>\<open>float\<close> are one constructor, compared by value,
  with the float \<^verbatim>\<open>nan\<close> (which \<^verbatim>\<open>json.load\<close> reads from \<^verbatim>\<open>NaN\<close>) apart. A Python string
  is the list of its code points; \<open>str\<close> turns an ASCII literal into one.
\<close>

type_synonym ustr = "nat list"

definition str :: "string \<Rightarrow> ustr" where
  "str s = map of_char s"

record civil =
  year :: nat
  month :: nat
  day :: nat
  hour :: nat
  minute :: nat
  second :: nat
  microsecond :: nat

text \<open>
  A \<^verbatim>\<open>datetime\<close> is naive (wall-clock fields only) or aware (fields and a fixed UTC
  offset, in microseconds east of UTC).
\<close>

datatype datetime = Naive civil | Aware civil int

datatype pyval = PNone | PBool bool | PNum rat | PNaN | PStr ustr | PDatetime datetime

type_synonym reminder = "(string \<times> pyval) list"

datatype exn = KeyError | TypeError | ValueError | OverflowError | OSError

subsection \<open>The datetime library, as far as the program uses it\<close>

text \<open>
  Comparison of two aware datetimes is comparison of their instants: the wall-clock fields
  turned into microseconds from the start of year 1 (the library's \<^verbatim>\<open>_ymd2ord\<close>), minus
  the offset. Two naive datetimes compare by their fields. A naive and an aware datetime
  do not compare: \<^verbatim>\<open><=\<close> raises TypeError.
\<close>

definition is_leap :: "nat \<Rightarrow> bool" where
  "is_leap y = (y mod 4 = 0 \<and> (y mod 100 \<noteq> 0 \<or> y mod 400 = 0))"

definition days_before_year :: "nat \<Rightarrow> int" where
  "days_before_year y =
     (let p = int y - 1 in p * 365 + p div 4 - p div 100 + p div 400)"

definition days_in_month :: "nat \<Rightarrow> nat \<Rightarrow> nat" where
  "days_in_month y m =
     (if m = 2 \<and> is_leap y then 29
      else [0, 31, 28, 31, 30, 31, 30, 31, 31, 30, 31, 30, 31] ! (if m \<le> 12 then m else 0))"

definition days_before_month :: "nat \<Rightarrow> nat \<Rightarrow> int" where
  "days_before_month y m =
     int ([0, 0, 31, 59, 90, 120, 151, 181, 212, 243, 273, 304, 334] ! (if m \<le> 12 then m else 0))
       + (if m > 2 \<and> is_leap y then 1 else 0)"

definition ymd2ord :: "nat \<Rightarrow> nat \<Rightarrow> nat \<Rightarrow> int" where
  "ymd2ord y m d = days_before_year y + days_before_month y m + int d"

definition wall_us :: "civil \<Rightarrow> int" where
  "wall_us c =
     ((ymd2ord (year c) (month c) (day c) * 24 + int (hour c)) * 60 + int (minute c)) * 60000000
       + int (second c) * 1000000 + int (microsecond c)"

fun dt_le :: "datetime \<Rightarrow> datetime \<Rightarrow> exn + bool" where
  "dt_le (Aware c1 o1) (Aware c2 o2) = Inr (wall_us c1 - o1 \<le> wall_us c2 - o2)"
| "dt_le (Naive c1) (Naive c2) = Inr (wall_us c1 \<le> wall_us c2)"
| "dt_le _ _ = Inl TypeError"

fun dt_lt :: "datetime \<Rightarrow> datetime \<Rightarrow> exn + bool" where
  "dt_lt (Aware c1 o1) (Aware c2 o2) = Inr (wall_us c1 - o1 < wall_us c2 - o2)"
| "dt_lt (Naive c1) (Naive c2) = Inr (wall_us c1 < wall_us c2)"
| "dt_lt _ _ = Inl TypeError"

text \<open>
  \<^verbatim>\<open>astimezone()\<close> is called on naive values only: the values of the date-time widgets,
  and stored values behind a \<^verbatim>\<open>tzinfo is None\<close> test. What it does depends on the machine's
  time zone rules, the parameter \<open>tz\<close>: the fields and the offset it gives a naive value, or
  the exception it raises (values at the ends of the range of years, or before 1970 on
  some systems).
\<close>

definition astimezone :: "(civil \<Rightarrow> exn + civil \<times> int) \<Rightarrow> civil \<Rightarrow> exn + datetime" where
  "astimezone tz c = (case tz c of Inl e \<Rightarrow> Inl e | Inr (c', off) \<Rightarrow> Inr (Aware c' off))"

text \<open>
  The clock: \<^verbatim>\<open>datetime.now().astimezone()\<close> is the current time as an aware datetime, its
  fields and offset an input \<open>now\<close> of each operation that reads it.
\<close>

definition aware :: "civil \<times> int \<Rightarrow> datetime" where
  "aware now = Aware (fst now) (snd now)"

text \<open>
  The formats \<^verbatim>\<open>%02d\<close>, \<^verbatim>\<open>%04d\<close> and \<^verbatim>\<open>%06d\<close>, on the numbers a datetime can hold (below
  100, 10000 and 1000000).
\<close>

definition digit :: "nat \<Rightarrow> char" where
  "digit n = ''0123456789'' ! (n mod 10)"

definition dec2 :: "nat \<Rightarrow> string" where
  "dec2 n = [digit (n div 10), digit n]"

definition dec4 :: "nat \<Rightarrow> string" where
  "dec4 n = [digit (n div 1000), digit (n div 100), digit (n div 10), digit n]"

definition dec6 :: "nat \<Rightarrow> string" where
  "dec6 n = [digit (n div 100000), digit (n div 10000), digit (n div 1000), digit (n div 100),
             digit (n div 10), digit n]"

fun fields :: "datetime \<Rightarrow> civil" where
  "fields (Naive c) = c"
| "fields (Aware c off) = c"

text \<open>\<^verbatim>\<open>strftime('%H:%M')\<close>\<close>

definition strftime_HM :: "datetime \<Rightarrow> string" where
  "strftime_HM d = dec2 (hour (fields d)) @ '':'' @ dec2 (minute (fields d))"

text \<open>
  \<^verbatim>\<open>isoformat()\<close>: \<^verbatim>\<open>YYYY-MM-DDTHH:MM:SS\<close>, then \<^verbatim>\<open>.ffffff\<close> when the microsecond is not
  zero, then for an aware value the offset \<^verbatim>\<open>+HH:MM\<close>, with \<^verbatim>\<open>:SS\<close> and \<^verbatim>\<open>.ffffff\<close> when
  the offset has seconds or microseconds.
\<close>

definition format_offset :: "int \<Rightarrow> string" where
  "format_offset off =
     (let a = nat \<bar>off\<bar>;
          hh = a div 3600000000;
          mm = (a mod 3600000000) div 60000000;
          ss = (a mod 60000000) div 1000000;
          us = a mod 1000000
      in (if off < 0 then ''-'' else ''+'') @ dec2 hh @ '':'' @ dec2 mm
         @ (if ss \<noteq> 0 \<or> us \<noteq> 0 then '':'' @ dec2 ss else [])
         @ (if us \<noteq> 0 then ''.'' @ dec6 us else []))"

definition isoformat_civil :: "civil \<Rightarrow> string" where
  "isoformat_civil c =
     dec4 (year c) @ ''-'' @ dec2 (month c) @ ''-'' @ dec2 (day c) @ ''T''
       @ dec2 (hour c) @ '':'' @ dec2 (minute c) @ '':'' @ dec2 (second c)
       @ (if microsecond c \<noteq> 0 then ''.'' @ dec6 (microsecond c) else [])"

fun isoformat :: "datetime \<Rightarrow> string" where
  "isoformat (Naive c) = isoformat_civil c"
| "isoformat (Aware c off) = isoformat_civil c @ format_offset off"

text \<open>The values a \<^verbatim>\<open>datetime\<close> object can hold.\<close>

definition valid_civil :: "civil \<Rightarrow> bool" where
  "valid_civil c =
     (1 \<le> year c \<and> year c \<le> 9999 \<and> 1 \<le> month c \<and> month c \<le> 12
      \<and> 1 \<le> day c \<and> day c \<le> days_in_month (year c) (month c)
      \<and> hour c < 24 \<and> minute c < 60 \<and> second c < 60 \<and> microsecond c < 1000000)"

fun valid_datetime :: "datetime \<Rightarrow> bool" where
  "valid_datetime (Naive c) = valid_civil c"
| "valid_datetime (Aware c off) = (valid_civil c \<and> \<bar>off\<bar> < 86400000000)"

text \<open>
  A parser for the format that \<^verbatim>\<open>isoformat()\<close> writes (the library's \<^verbatim>\<open>fromisoformat\<close>
  reads this format, and others that differ between versions): the digits of a number,
  the optional \<^verbatim>\<open>.ffffff\<close>, the optional offset, and the whole timestamp.
\<close>

fun digits :: "nat \<Rightarrow> ustr \<Rightarrow> nat option" where
  "digits acc [] = Some acc"
| "digits acc (c # cs) = (if 48 \<le> c \<and> c \<le> 57 then digits (10 * acc + (c - 48)) cs else None)"

definition parse_fraction :: "ustr \<Rightarrow> (nat \<times> ustr) option" where
  "parse_fraction s =
     (case s of
        dot # f1 # f2 # f3 # f4 # f5 # f6 # rest \<Rightarrow>
          if dot = 46
          then (case digits 0 [f1, f2, f3, f4, f5, f6] of None \<Rightarrow> None | Some us \<Rightarrow> Some (us, rest))
          else Some (0, s)
      | _ \<Rightarrow> Some (0, s))"

definition parse_offset_tail :: "ustr \<Rightarrow> nat option" where
  "parse_offset_tail s =
     (case s of
        [] \<Rightarrow> Some 0
      | [c, s1, s2] \<Rightarrow>
          if c = 58
          then (case digits 0 [s1, s2] of None \<Rightarrow> None | Some ss \<Rightarrow> Some (ss * 1000000))
          else None
      | [c, s1, s2, dot, f1, f2, f3, f4, f5, f6] \<Rightarrow>
          if c = 58 \<and> dot = 46
          then (case (digits 0 [s1, s2], digits 0 [f1, f2, f3, f4, f5, f6]) of
                  (Some ss, Some us) \<Rightarrow> Some (ss * 1000000 + us)
                | _ \<Rightarrow> None)
          else None
      | _ \<Rightarrow> None)"

definition parse_offset :: "ustr \<Rightarrow> int option option" where
  "parse_offset s =
     (case s of
        [] \<Rightarrow> Some None
      | sign # h1 # h2 # c # m1 # m2 # rest \<Rightarrow>
          if (sign = 43 \<or> sign = 45) \<and> c = 58
          then (case (digits 0 [h1, h2], digits 0 [m1, m2], parse_offset_tail rest) of
                  (Some hh, Some mm, Some t) \<Rightarrow>
                    Some (Some (if sign = 45 then - int ((hh * 60 + mm) * 60000000 + t)
                                else int ((hh * 60 + mm) * 60000000 + t)))
                | _ \<Rightarrow> None)
          else None
      | _ \<Rightarrow> None)"

definition parse_isoformat :: "ustr \<Rightarrow> datetime option" where
  "parse_isoformat s =
     (case s of
        y1 # y2 # y3 # y4 # d1 # m1 # m2 # d2 # a1 # a2 # t # h1 # h2 # c1 # n1 # n2 # c2
          # s1 # s2 # rest \<Rightarrow>
          if d1 = 45 \<and> d2 = 45 \<and> t = 84 \<and> c1 = 58 \<and> c2 = 58
          then (case (digits 0 [y1, y2, y3, y4], digits 0 [m1, m2], digits 0 [a1, a2],
                      digits 0 [h1, h2], digits 0 [n1, n2], digits 0 [s1, s2],
                      parse_fraction rest) of
                  (Some y, Some m, Some d, Some h, Some n, Some sec, Some (us, rest')) \<Rightarrow>
                    let c = \<lparr>year = y, month = m, day = d, hour = h, minute = n, second = sec,
                             microsecond = us\<rparr>
                    in if valid_civil c
                       then (case parse_offset rest' of
                               None \<Rightarrow> None
                             | Some None \<Rightarrow> Some (Naive c)
                             | Some (Some off) \<Rightarrow>
                                 if \<bar>off\<bar> < 86400000000 then Some (Aware c off) else None)
                       else None
                | _ \<Rightarrow> None)
          else None
      | _ \<Rightarrow> None)"


subsection \<open>Python's operators on the values\<close>

text \<open>Truth value of an object (\<^verbatim>\<open>not x\<close>, \<^verbatim>\<open>if x\<close>).\<close>

fun truthy :: "pyval \<Rightarrow> bool" where
  "truthy PNone = False"
| "truthy (PBool b) = b"
| "truthy (PNum n) = (n \<noteq> 0)"
| "truthy PNaN = True"
| "truthy (PStr s) = (s \<noteq> [])"
| "truthy (PDatetime d) = True"

text \<open>
  \<^verbatim>\<open>==\<close>: numbers and booleans compare by value (\<^verbatim>\<open>True == 1\<close>), aware datetimes by
  instant, naive ones by fields; values of different kinds are unequal, and \<^verbatim>\<open>nan\<close> is
  unequal to everything, itself included.
\<close>

fun py_eq :: "pyval \<Rightarrow> pyval \<Rightarrow> bool" where
  "py_eq PNone PNone = True"
| "py_eq (PBool a) (PBool b) = (a = b)"
| "py_eq (PBool a) (PNum n) = (n = of_bool a)"
| "py_eq (PNum n) (PBool a) = (n = of_bool a)"
| "py_eq (PNum m) (PNum n) = (m = n)"
| "py_eq (PStr s) (PStr t) = (s = t)"
| "py_eq (PDatetime (Aware c1 o1)) (PDatetime (Aware c2 o2)) = (wall_us c1 - o1 = wall_us c2 - o2)"
| "py_eq (PDatetime (Naive c1)) (PDatetime (Naive c2)) = (wall_us c1 = wall_us c2)"
| "py_eq _ _ = False"

text \<open>
  \<^verbatim>\<open><\<close>, as \<^verbatim>\<open>list.sort\<close> uses it on the keys: defined inside one kind of value, TypeError
  (here \<open>None\<close>) across kinds and on \<^verbatim>\<open>None\<close>; false whenever a number is compared with
  \<^verbatim>\<open>nan\<close>.
\<close>

fun py_lt :: "pyval \<Rightarrow> pyval \<Rightarrow> bool option" where
  "py_lt (PBool a) (PBool b) = Some ((of_bool a :: rat) < of_bool b)"
| "py_lt (PBool a) (PNum n) = Some (of_bool a < n)"
| "py_lt (PNum n) (PBool a) = Some (n < of_bool a)"
| "py_lt (PNum m) (PNum n) = Some (m < n)"
| "py_lt PNaN (PBool b) = Some False"
| "py_lt PNaN (PNum n) = Some False"
| "py_lt PNaN PNaN = Some False"
| "py_lt (PBool a) PNaN = Some False"
| "py_lt (PNum m) PNaN = Some False"
| "py_lt (PStr s) (PStr t) = Some (s < t)"
| "py_lt (PDatetime a) (PDatetime b) = (case dt_lt a b of Inl e \<Rightarrow> None | Inr b \<Rightarrow> Some b)"
| "py_lt _ _ = None"

text \<open>
  \<^verbatim>\<open>str.strip()\<close>: the characters for which \<^verbatim>\<open>str.isspace()\<close> holds are removed at both
  ends. These are the code points U+0009 to U+000D, U+001C to U+0020, U+0085, U+00A0,
  U+1680, U+2000 to U+200A, U+2028, U+2029, U+202F, U+205F and U+3000.
\<close>

definition is_space :: "nat \<Rightarrow> bool" where
  "is_space c =
     ((0x09 \<le> c \<and> c \<le> 0x0D) \<or> (0x1C \<le> c \<and> c \<le> 0x20) \<or> c = 0x85 \<or> c = 0xA0
      \<or> c = 0x1680 \<or> (0x2000 \<le> c \<and> c \<le> 0x200A) \<or> c = 0x2028 \<or> c = 0x2029
      \<or> c = 0x202F \<or> c = 0x205F \<or> c = 0x3000)"

definition strip :: "ustr \<Rightarrow> ustr" where
  "strip s = rev (dropWhile is_space (rev (dropWhile is_space s)))"

text \<open>\<^verbatim>\<open>d.get(k)\<close> is \<open>map_of d k\<close>; \<^verbatim>\<open>d[k] = v\<close> keeps the position of an existing key.\<close>

fun setitem :: "string \<Rightarrow> pyval \<Rightarrow> reminder \<Rightarrow> reminder" where
  "setitem k v [] = [(k, v)]"
| "setitem k v (p # ps) = (if fst p = k then (k, v) # ps else p # setitem k v ps)"

definition getitem :: "reminder \<Rightarrow> string \<Rightarrow> exn + pyval" where
  "getitem r k = (case map_of r k of None \<Rightarrow> Inl KeyError | Some v \<Rightarrow> Inr v)"

text \<open>\<^verbatim>\<open>reminder.get('notified', False)\<close>\<close>

definition get_notified :: "reminder \<Rightarrow> pyval" where
  "get_notified r = (case map_of r ''notified'' of None \<Rightarrow> PBool False | Some v \<Rightarrow> v)"

text \<open>\<^verbatim>\<open>isinstance(reminder.get('dateTime'), datetime)\<close>\<close>

definition get_datetime :: "reminder \<Rightarrow> datetime option" where
  "get_datetime r = (case map_of r ''dateTime'' of Some (PDatetime d) \<Rightarrow> Some d | _ \<Rightarrow> None)"

subsection \<open>\<^verbatim>\<open>self.reminders.sort(key=lambda r: r['dateTime'])\<close>\<close>

text \<open>
  The key function runs on every element first: a record without \<^verbatim>\<open>dateTime\<close> raises
  KeyError. A list of fewer than two elements is then returned as it is. Otherwise the keys
  are compared with \<^verbatim>\<open><\<close>; every sorting procedure has to compare across any two kinds
  of key present, so the sort raises TypeError unless all keys are of one comparable kind,
  and else returns the stable sorted list. (Among number keys with a \<^verbatim>\<open>nan\<close> the
  comparisons are no order and the list is left as the insertions below leave it.)
\<close>

fun kind :: "pyval \<Rightarrow> nat option" where
  "kind PNone = None"
| "kind (PBool b) = Some 0"
| "kind (PNum n) = Some 0"
| "kind PNaN = Some 0"
| "kind (PStr s) = Some 1"
| "kind (PDatetime (Naive c)) = Some 2"
| "kind (PDatetime (Aware c off)) = Some 3"

fun insort_lt :: "('a \<Rightarrow> 'a \<Rightarrow> bool) \<Rightarrow> 'a \<Rightarrow> 'a list \<Rightarrow> 'a list" where
  "insort_lt lt x [] = [x]"
| "insort_lt lt x (y # ys) = (if lt y x then y # insort_lt lt x ys else x # y # ys)"

definition sort_lt :: "('a \<Rightarrow> 'a \<Rightarrow> bool) \<Rightarrow> 'a list \<Rightarrow> 'a list" where
  "sort_lt lt xs = foldr (insort_lt lt) xs []"

definition key_lt :: "reminder \<Rightarrow> reminder \<Rightarrow> bool" where
  "key_lt a b =
     (case (map_of a ''dateTime'', map_of b ''dateTime'') of
        (Some x, Some y) \<Rightarrow> py_lt x y = Some True
      | _ \<Rightarrow> False)"

definition sort_reminders :: "reminder list \<Rightarrow> exn + reminder list" where
  "sort_reminders rs =
     (if \<exists>r \<in> set rs. map_of r ''dateTime'' = None then Inl KeyError
      else if length rs < 2 then Inr rs
      else if \<exists>r \<in> set rs. Option.bind (map_of r ''dateTime'') kind = None
                \<or> Option.bind (map_of r ''dateTime'') kind
                     \<noteq> Option.bind (map_of (hd rs) ''dateTime'') kind
           then Inl TypeError
      else Inr (sort_lt key_lt rs))"


section \<open>The application state and what its operations report\<close>

text \<open>
  The settings file \<^verbatim>\<open>reminders.json\<close>, as \<^verbatim>\<open>json.load\<close> sees it: missing, not decodable,
  a JSON array of items (objects, or anything else), or a document that is not an array.
  \<^verbatim>\<open>json.dump\<close> followed by \<^verbatim>\<open>json.load\<close> returns the objects it was given when every value
  is serialisable, that is, not a \<^verbatim>\<open>datetime\<close>.
\<close>

datatype jitem = JObject reminder | JOther

datatype json_file = FileNotFound | Undecodable | JArray "jitem list" | JNotArray

record app =
  reminders :: "reminder list"
  settings_file :: json_file

text \<open>
  An operation ends normally (\<open>Done\<close>), after showing a message box (\<open>Warned\<close>, with the
  state it leaves), or with an exception that nothing catches (\<open>Raised\<close>).
  \<open>Input_Error\<close> is the box titled "Input Error", \<open>Selection_Error\<close> "Selection Error",
  \<open>Not_Found\<close> the box "Could not find reminder data to edit", \<open>Invalid_Date\<close> the box
  "Invalid date data for the selected reminder", \<open>Save_Error\<close> "Save Error".
\<close>

datatype message = Input_Error | Selection_Error | Not_Found | Invalid_Date | Save_Error

datatype 'a outcome = Done 'a | Warned message 'a | Raised exn

section \<open>The due-check thread: \<^verbatim>\<open>ReminderCheckerThread.run\<close>\<close>

type_synonym event = "ustr \<times> ustr"

text \<open>\<^verbatim>\<open>if d.tzinfo is None: d = d.astimezone()\<close>\<close>

definition to_aware :: "(civil \<Rightarrow> exn + civil \<times> int) \<Rightarrow> datetime \<Rightarrow> exn + datetime" where
  "to_aware tz d = (case d of Naive c \<Rightarrow> astimezone tz c | Aware c off \<Rightarrow> Inr d)"

text \<open>
  The body of the \<^verbatim>\<open>for\<close> loop for one reminder: the due-event it emits, if any, and the
  reminder afterwards; or the exception it raises. The signal is declared
  \<^verbatim>\<open>pyqtSignal(str, str)\<close>, so emitting a text that is not a string raises TypeError.
\<close>

definition check_reminder ::
  "(civil \<Rightarrow> exn + civil \<times> int) \<Rightarrow> datetime \<Rightarrow> reminder \<Rightarrow> exn + (event option \<times> reminder)" where
  "check_reminder tz now_aware r =
     (case get_datetime r of
        None \<Rightarrow> Inr (None, r)
      | Some d \<Rightarrow>
          (case to_aware tz d of
             Inl e \<Rightarrow> Inl e
           | Inr reminder_time \<Rightarrow>
               if truthy (get_notified r) then Inr (None, r)
               else (case dt_le reminder_time now_aware of
                       Inl e \<Rightarrow> Inl e
                     | Inr False \<Rightarrow> Inr (None, r)
                     | Inr True \<Rightarrow>
                         (case getitem r ''text'' of
                            Inl e \<Rightarrow> Inl e
                          | Inr (PStr t) \<Rightarrow>
                              Inr (Some (t, str ''Reminder set for '' @ str (strftime_HM reminder_time)),
                                   setitem ''notified'' (PBool True) r)
                          | Inr _ \<Rightarrow> Inl TypeError))))"

text \<open>
  One pass of the \<^verbatim>\<open>for\<close> loop over the list: the events emitted in order, the list
  afterwards, and the exception that ended the pass, if one did (the reminders before the
  offending one have been handled, the others not).
\<close>

fun scan ::
  "(civil \<Rightarrow> exn + civil \<times> int) \<Rightarrow> datetime \<Rightarrow> reminder list
     \<Rightarrow> (event list \<times> reminder list) \<times> exn option" where
  "scan tz now_aware [] = (([], []), None)"
| "scan tz now_aware (r # rs) =
     (case check_reminder tz now_aware r of
        Inl e \<Rightarrow> (([], r # rs), Some e)
      | Inr (ev, r') \<Rightarrow>
          (case scan tz now_aware rs of
             ((evs, rs'), err) \<Rightarrow> ((case ev of None \<Rightarrow> evs | Some x \<Rightarrow> x # evs, r' # rs'), err)))"

text \<open>
  The \<^verbatim>\<open>while self.running\<close> loop. Each wake reads the flag, and when it is set reads the
  clock once and scans. The wakes are given as a list of what the thread reads: the flag
  and the clock. The thread has exited because the flag was cleared (\<open>Stopped\<close>), has died
  of an exception (\<open>Died\<close>), or is asleep before its next wake (\<open>Sleeping\<close>).
\<close>

datatype thread = Stopped | Died exn | Sleeping

fun run ::
  "(civil \<Rightarrow> exn + civil \<times> int) \<Rightarrow> (bool \<times> civil \<times> int) list \<Rightarrow> event list \<times> reminder list
     \<Rightarrow> (event list \<times> reminder list) \<times> thread" where
  "run tz [] (evs, rs) = ((evs, rs), Sleeping)"
| "run tz ((running, now) # wakes) (evs, rs) =
     (if \<not> running then ((evs, rs), Stopped)
      else (case scan tz (aware now) rs of
              ((evs', rs'), Some e) \<Rightarrow> ((evs @ evs', rs'), Died e)
            | ((evs', rs'), None) \<Rightarrow> run tz wakes (evs @ evs', rs')))"

section \<open>The window: \<^verbatim>\<open>ReminderApp\<close>\<close>

text \<open>
  \<^verbatim>\<open>update_list\<close> rebuilds the list widget. Of it the model keeps the item data (the ids,
  which \<^verbatim>\<open>delete_reminder\<close> and \<^verbatim>\<open>edit_reminder_dialog\<close> read back) and the exceptions:
  the KeyError of a reminder without \<^verbatim>\<open>dateTime\<close>, or with a datetime and without \<^verbatim>\<open>text\<close>
  or \<^verbatim>\<open>id\<close>, and what \<^verbatim>\<open>astimezone()\<close> raises on a naive datetime. A reminder whose
  \<^verbatim>\<open>dateTime\<close> is not a datetime gets no item.
\<close>

fun update_list :: "(civil \<Rightarrow> exn + civil \<times> int) \<Rightarrow> reminder list \<Rightarrow> exn + pyval list" where
  "update_list tz [] = Inr []"
| "update_list tz (r # rs) =
     (case getitem r ''dateTime'' of
        Inl e \<Rightarrow> Inl e
      | Inr (PDatetime d) \<Rightarrow>
          (case to_aware tz d of
             Inl e \<Rightarrow> Inl e
           | Inr dt_obj \<Rightarrow>
               (case getitem r ''text'' of
                  Inl e \<Rightarrow> Inl e
                | Inr t \<Rightarrow>
                    (case getitem r ''id'' of
                       Inl e \<Rightarrow> Inl e
                     | Inr i \<Rightarrow>
                         (case update_list tz rs of Inl e \<Rightarrow> Inl e | Inr ids \<Rightarrow> Inr (i # ids)))))
      | Inr _ \<Rightarrow> update_list tz rs)"

text \<open>
  \<^verbatim>\<open>save_reminders\<close>: the reminders whose \<^verbatim>\<open>dateTime\<close> is a datetime are copied with the
  datetime in ISO format; the others are skipped. \<^verbatim>\<open>json.dump\<close> raises TypeError on a value
  it cannot serialise, after the file has been opened for writing and the array begun; the
  handler shows "Save Error". (A file that cannot be opened or written is not modelled.)
\<close>

definition reminders_to_save :: "reminder list \<Rightarrow> reminder list" where
  "reminders_to_save rs =
     concat (map (\<lambda>r. case get_datetime r of
                          None \<Rightarrow> []
                        | Some d \<Rightarrow> [setitem ''dateTime'' (PStr (str (isoformat d))) r]) rs)"

fun serialisable :: "pyval \<Rightarrow> bool" where
  "serialisable (PDatetime d) = False"
| "serialisable _ = True"

definition save_reminders :: "app \<Rightarrow> app outcome" where
  "save_reminders a =
     (let to_save = reminders_to_save (reminders a) in
      if \<forall>r \<in> set to_save. \<forall>kv \<in> set r. serialisable (snd kv)
      then Done (a\<lparr>settings_file := JArray (map JObject to_save)\<rparr>)
      else Warned Save_Error (a\<lparr>settings_file := Undecodable\<rparr>))"

text \<open>
  \<^verbatim>\<open>load_reminders\<close>. \<^verbatim>\<open>datetime.fromisoformat\<close> is a parameter \<open>fromiso\<close> (what it accepts
  differs between Python versions); \<open>None\<close> is its ValueError. For one item, the reminder
  appended or the exception raised: TypeError for an item that is not an object or a
  \<^verbatim>\<open>dateTime\<close> that is not a string, KeyError without \<^verbatim>\<open>dateTime\<close>, ValueError for a string
  that does not parse, and what \<^verbatim>\<open>astimezone()\<close> raises.
\<close>

definition setdefault :: "string \<Rightarrow> pyval \<Rightarrow> reminder \<Rightarrow> reminder" where
  "setdefault k v r = (case map_of r k of None \<Rightarrow> r @ [(k, v)] | Some x \<Rightarrow> r)"

definition load_item ::
  "(ustr \<Rightarrow> datetime option) \<Rightarrow> (civil \<Rightarrow> exn + civil \<times> int) \<Rightarrow> jitem \<Rightarrow> exn + reminder" where
  "load_item fromiso tz item =
     (case item of
        JOther \<Rightarrow> Inl TypeError
      | JObject d \<Rightarrow>
          (case map_of d ''dateTime'' of
             None \<Rightarrow> Inl KeyError
           | Some (PStr s) \<Rightarrow>
               (case fromiso s of
                  None \<Rightarrow> Inl ValueError
                | Some parsed \<Rightarrow>
                    (case to_aware tz parsed of
                       Inl e \<Rightarrow> Inl e
                     | Inr dt_obj \<Rightarrow>
                         Inr (setdefault ''notified'' (PBool False)
                                (setitem ''dateTime'' (PDatetime dt_obj) d))))
           | Some _ \<Rightarrow> Inl TypeError))"

text \<open>
  The loop over the items: the inner handler catches ValueError, TypeError and KeyError
  and skips the item; any other exception reaches the outer handlers, which leave the
  list empty (\<open>None\<close> here).
\<close>

fun load_items ::
  "(ustr \<Rightarrow> datetime option) \<Rightarrow> (civil \<Rightarrow> exn + civil \<times> int) \<Rightarrow> jitem list \<Rightarrow> reminder list option" where
  "load_items fromiso tz [] = Some []"
| "load_items fromiso tz (item # items) =
     (case load_item fromiso tz item of
        Inl e \<Rightarrow>
          if e = ValueError \<or> e = TypeError \<or> e = KeyError then load_items fromiso tz items
          else None
      | Inr r \<Rightarrow>
          (case load_items fromiso tz items of None \<Rightarrow> None | Some rs \<Rightarrow> Some (r # rs)))"

definition load_reminders ::
  "(ustr \<Rightarrow> datetime option) \<Rightarrow> (civil \<Rightarrow> exn + civil \<times> int) \<Rightarrow> app \<Rightarrow> app outcome" where
  "load_reminders fromiso tz a =
     (let rs = (case settings_file a of
                  JArray items \<Rightarrow>
                    (case load_items fromiso tz items of
                       None \<Rightarrow> []
                     | Some loaded \<Rightarrow>
                         (case sort_reminders loaded of Inl e \<Rightarrow> [] | Inr sorted_rs \<Rightarrow> sorted_rs))
                | _ \<Rightarrow> [])
      in case update_list tz rs of
           Inl e \<Rightarrow> Raised e
         | Inr ids \<Rightarrow> Done (a\<lparr>reminders := rs\<rparr>))"

text \<open>
  The common tail of the three handlers: \<^verbatim>\<open>self.update_list()\<close>, \<^verbatim>\<open>self.save_reminders()\<close>.
  (The restart of the checker thread that follows hands the same list to a new thread.)
\<close>

definition update_and_save :: "(civil \<Rightarrow> exn + civil \<times> int) \<Rightarrow> app \<Rightarrow> app outcome" where
  "update_and_save tz a =
     (case update_list tz (reminders a) of Inl e \<Rightarrow> Raised e | Inr ids \<Rightarrow> save_reminders a)"

text \<open>
  \<^verbatim>\<open>add_reminder\<close>. Its inputs are the text of the line edit, the value of the date-time
  widget, and the two readings of the clock: \<open>now\<close> for the validation and the timestamp
  \<open>ts\<close> that becomes the id.
\<close>

definition add_reminder ::
  "(civil \<Rightarrow> exn + civil \<times> int) \<Rightarrow> ustr \<Rightarrow> civil \<Rightarrow> civil \<times> int \<Rightarrow> rat \<Rightarrow> app \<Rightarrow> app outcome" where
  "add_reminder tz text_input q_datetime now ts a =
     (let text = strip text_input in
      if text = [] then Warned Input_Error a
      else
        (case astimezone tz q_datetime of
           Inl e \<Rightarrow> Raised e
         | Inr reminder_datetime \<Rightarrow>
             (case dt_le reminder_datetime (aware now) of
                Inl e \<Rightarrow> Raised e
              | Inr True \<Rightarrow> Warned Input_Error a
              | Inr False \<Rightarrow>
                  let new_reminder = [(''id'', PNum ts), (''text'', PStr text),
                                      (''dateTime'', PDatetime reminder_datetime),
                                      (''notified'', PBool False)]
                  in case sort_reminders (reminders a @ [new_reminder]) of
                       Inl e \<Rightarrow> Raised e
                     | Inr rs \<Rightarrow> update_and_save tz (a\<lparr>reminders := rs\<rparr>))))"

text \<open>
  The loop \<^verbatim>\<open>for r in self.reminders: if r['id'] == reminder_id: ... break\<close> of
  \<^verbatim>\<open>edit_reminder_dialog\<close>: the position of the first reminder with that id, or the
  KeyError of a reminder without id met before it.
\<close>

fun find_id :: "pyval \<Rightarrow> reminder list \<Rightarrow> exn + nat option" where
  "find_id reminder_id [] = Inr None"
| "find_id reminder_id (r # rs) =
     (case getitem r ''id'' of
        Inl e \<Rightarrow> Inl e
      | Inr v \<Rightarrow>
          if py_eq v reminder_id then Inr (Some 0)
          else (case find_id reminder_id rs of
                  Inl e \<Rightarrow> Inl e
                | Inr None \<Rightarrow> Inr None
                | Inr (Some i) \<Rightarrow> Inr (Some (Suc i))))"

text \<open>
  The same loop in \<^verbatim>\<open>delete_reminder\<close>, which reads the text of the reminder it finds for
  the confirmation box: that text (\<open>None\<close> when no reminder has the id and the box says
  "this reminder"), or the KeyError of a missing \<^verbatim>\<open>id\<close> or \<^verbatim>\<open>text\<close>.
\<close>

fun find_text :: "pyval \<Rightarrow> reminder list \<Rightarrow> exn + pyval option" where
  "find_text reminder_id [] = Inr None"
| "find_text reminder_id (r # rs) =
     (case getitem r ''id'' of
        Inl e \<Rightarrow> Inl e
      | Inr v \<Rightarrow>
          if py_eq v reminder_id
          then (case getitem r ''text'' of Inl e \<Rightarrow> Inl e | Inr t \<Rightarrow> Inr (Some t))
          else find_text reminder_id rs)"

text \<open>\<^verbatim>\<open>[r for r in self.reminders if r['id'] != reminder_id]\<close>\<close>

fun remove_id :: "pyval \<Rightarrow> reminder list \<Rightarrow> exn + reminder list" where
  "remove_id reminder_id [] = Inr []"
| "remove_id reminder_id (r # rs) =
     (case getitem r ''id'' of
        Inl e \<Rightarrow> Inl e
      | Inr v \<Rightarrow>
          (case remove_id reminder_id rs of
             Inl e \<Rightarrow> Inl e
           | Inr rs' \<Rightarrow> Inr (if py_eq v reminder_id then rs' else r # rs')))"

text \<open>
  \<^verbatim>\<open>delete_reminder\<close>. \<open>selected\<close> is the data of the selected list item (\<open>None\<close>: no item
  selected), \<open>confirm\<close> the answer to the confirmation box.
\<close>

definition delete_reminder ::
  "(civil \<Rightarrow> exn + civil \<times> int) \<Rightarrow> pyval option \<Rightarrow> bool \<Rightarrow> app \<Rightarrow> app outcome" where
  "delete_reminder tz selected confirm a =
     (case selected of
        None \<Rightarrow> Warned Selection_Error a
      | Some reminder_id \<Rightarrow>
          (case find_text reminder_id (reminders a) of
             Inl e \<Rightarrow> Raised e
           | Inr reminder_text \<Rightarrow>
               if confirm then
                 (case remove_id reminder_id (reminders a) of
                    Inl e \<Rightarrow> Raised e
                  | Inr rs \<Rightarrow> update_and_save tz (a\<lparr>reminders := rs\<rparr>))
               else Done a))"

text \<open>
  \<^verbatim>\<open>edit_reminder_dialog\<close>. \<open>reminder_id\<close> is the data of the double-clicked item,
  \<open>dialog\<close> what the dialog returns (\<open>None\<close>: cancelled; else the text and the date-time of
  its widgets), \<open>now\<close> the clock read after the dialog closes. Building the dialog reads
  the text of the reminder (the line edit takes a string or \<^verbatim>\<open>None\<close>) and makes a naive
  datetime aware; \<^verbatim>\<open>get_data\<close> makes the widget's date-time aware.
\<close>

definition edit_reminder_dialog ::
  "(civil \<Rightarrow> exn + civil \<times> int) \<Rightarrow> pyval \<Rightarrow> (ustr \<times> civil) option \<Rightarrow> civil \<times> int \<Rightarrow> app
     \<Rightarrow> app outcome" where
  "edit_reminder_dialog tz reminder_id dialog now a =
     (case find_id reminder_id (reminders a) of
        Inl e \<Rightarrow> Raised e
      | Inr None \<Rightarrow> Warned Not_Found a
      | Inr (Some i) \<Rightarrow>
          let reminder_to_edit = reminders a ! i in
          (case getitem reminder_to_edit ''dateTime'' of
             Inl e \<Rightarrow> Raised e
           | Inr (PDatetime original_time) \<Rightarrow>
               (case getitem reminder_to_edit ''text'' of
                  Inl e \<Rightarrow> Raised e
                | Inr current_text \<Rightarrow>
                    (case to_aware tz original_time of
                       Inl e \<Rightarrow> Raised e
                     | Inr current_datetime \<Rightarrow>
                         if \<not> (case current_text of PStr t \<Rightarrow> True | PNone \<Rightarrow> True | _ \<Rightarrow> False)
                         then Raised TypeError
                         else
                           (case dialog of
                              None \<Rightarrow> Done a
                            | Some (text_input, q_datetime) \<Rightarrow>
                                (case astimezone tz q_datetime of
                                   Inl e \<Rightarrow> Raised e
                                 | Inr new_datetime \<Rightarrow>
                                     let new_text = strip text_input;
                                         now_aware = aware now
                                     in if new_text = [] then Warned Input_Error a
                                        else
                                          (case dt_le new_datetime now_aware of
                                             Inl e \<Rightarrow> Raised e
                                           | Inr True \<Rightarrow> Warned Input_Error a
                                           | Inr False \<Rightarrow>
                                               let r1 = setitem ''dateTime'' (PDatetime new_datetime)
                                                          (setitem ''text'' (PStr new_text)
                                                             reminder_to_edit)
                                               in (case (case dt_lt now_aware new_datetime of
                                                           Inl e \<Rightarrow> Inl e
                                                         | Inr False \<Rightarrow> Inr False
                                                         | Inr True \<Rightarrow>
                                                             if truthy (get_notified r1) then Inr True
                                                             else dt_le original_time now_aware) of
                                                     Inl e \<Rightarrow> Raised e
                                                   | Inr reset \<Rightarrow>
                                                       let r2 = (if reset
                                                                 then setitem ''notified'' (PBool False) r1
                                                                 else r1)
                                                       in (case sort_reminders ((reminders a)[i := r2]) of
                                                             Inl e \<Rightarrow> Raised e
                                                           | Inr rs \<Rightarrow>
                                                               update_and_save tz
                                                                 (a\<lparr>reminders := rs\<rparr>))))))))
           | Inr _ \<Rightarrow> Warned Invalid_Date a))"

section \<open>Predicates used to state the properties\<close>

text \<open>
  The due instant of a reminder whose \<^verbatim>\<open>dateTime\<close> is an aware datetime, in microseconds;
  \<open>aware_due\<close> says that the reminder has one.
\<close>

definition aware_due :: "reminder \<Rightarrow> bool" where
  "aware_due r = (case get_datetime r of Some (Aware c off) \<Rightarrow> True | _ \<Rightarrow> False)"

definition due_instant :: "reminder \<Rightarrow> int" where
  "due_instant r = (case get_datetime r of Some (Aware c off) \<Rightarrow> wall_us c - off | _ \<Rightarrow> 0)"

fun instant :: "datetime \<Rightarrow> int" where
  "instant (Aware c off) = wall_us c - off"
| "instant (Naive c) = wall_us c"

text \<open>The store is in ascending order of due time.\<close>

definition sorted_by_due :: "reminder list \<Rightarrow> bool" where
  "sorted_by_due rs = (list_all aware_due rs \<and> sorted (map due_instant rs))"

text \<open>The state an operation leaves, when it leaves one.\<close>

fun state_of :: "'a outcome \<Rightarrow> 'a option" where
  "state_of (Done a) = Some a"
| "state_of (Warned m a) = Some a"
| "state_of (Raised e) = None"

text \<open>The text of a reminder is a string.\<close>

definition has_text :: "reminder \<Rightarrow> bool" where
  "has_text r = (case map_of r ''text'' of Some (PStr t) \<Rightarrow> True | _ \<Rightarrow> False)"

text \<open>
  A well-formed reminder: a dictionary (no key twice) with an id, a text, an aware
  datetime under \<^verbatim>\<open>dateTime\<close>, and no datetime under any other key.
\<close>

definition well_formed :: "reminder \<Rightarrow> bool" where
  "well_formed r =
     (distinct (map fst r) \<and> aware_due r \<and> map_of r ''id'' \<noteq> None
      \<and> map_of r ''text'' \<noteq> None
      \<and> list_all (\<lambda>kv. fst kv = ''dateTime'' \<or> serialisable (snd kv)) r)"

text \<open>The reminder that \<^verbatim>\<open>add_reminder\<close> builds.\<close>

definition new_reminder :: "rat \<Rightarrow> ustr \<Rightarrow> datetime \<Rightarrow> reminder" where
  "new_reminder ts text reminder_datetime =
     [(''id'', PNum ts), (''text'', PStr text), (''dateTime'', PDatetime reminder_datetime),
      (''notified'', PBool False)]"





text \<open>A time zone with one fixed offset, and sample values, for the concrete instances.\<close>

definition fixed_zone :: "int \<Rightarrow> civil \<Rightarrow> exn + civil \<times> int" where
  "fixed_zone off c = Inr (c, off)"

definition noon :: civil where
  "noon = \<lparr>year = 2024, month = 6, day = 1, hour = 12, minute = 0, second = 0, microsecond = 0\<rparr>"

definition one_pm :: civil where
  "one_pm = noon\<lparr>hour := 13\<rparr>"

definition teatime :: civil where
  "teatime = noon\<lparr>hour := 17\<rparr>"

definition six_pm :: civil where
  "six_pm = noon\<lparr>hour := 18\<rparr>"

definition empty_app :: app where
  "empty_app = \<lparr>reminders = [], settings_file = FileNotFound\<rparr>"

definition tea :: reminder where
  "tea = [(''id'', PNum 2), (''text'', PStr (str ''tea'')),
          (''dateTime'', PDatetime (Aware teatime 0)), (''notified'', PBool False)]"

definition supper :: reminder where
  "supper = [(''id'', PNum 4), (''text'', PStr (str ''supper'')),
             (''dateTime'', PDatetime (Aware (noon\<lparr>hour := 19\<rparr>) 0)), (''notified'', PBool False)]"

definition tea_app :: app where
  "tea_app = \<lparr>reminders = [tea], settings_file = FileNotFound\<rparr>"

text \<open>
  A settings file whose one reminder has the id \<^verbatim>\<open>NaN\<close>, the store loaded from it, and a
  parser that reads the one timestamp of that file.
\<close>

definition nan_file :: json_file where
  "nan_file =
     JArray [JObject [(''id'', PNaN), (''text'', PStr (str ''tea'')),
                      (''dateTime'', PStr (str ''2024-06-01T17:00:00+00:00'')),
                      (''notified'', PBool False)]]"

definition nan_app :: app where
  "nan_app =
     \<lparr>reminders = [[(''id'', PNaN), (''text'', PStr (str ''tea'')),
                     (''dateTime'', PDatetime (Aware teatime 0)), (''notified'', PBool False)]],
      settings_file = nan_file\<rparr>"

definition parse_teatime :: "ustr \<Rightarrow> datetime option" where
  "parse_teatime s =
     (if s = str ''2024-06-01T17:00:00+00:00'' then Some (Aware teatime 0) else None)"

text \<open>
  The states the program can be in: the window is created with an empty list and loads
  the settings file, whatever it holds; then the user adds, edits and deletes, the checker
  thread scans, and closing the window may save. A step that ends with an uncaught
  exception leaves no state to go on from; a scan that dies leaves the list as far as it
  got.
\<close>

inductive reachable ::
  "(ustr \<Rightarrow> datetime option) \<Rightarrow> (civil \<Rightarrow> exn + civil \<times> int) \<Rightarrow> app \<Rightarrow> bool"
  for fromiso tz where
  start:
    "state_of (load_reminders fromiso tz \<lparr>reminders = [], settings_file = f\<rparr>) = Some a
     \<Longrightarrow> reachable fromiso tz a"
| add:
    "reachable fromiso tz a
     \<Longrightarrow> state_of (add_reminder tz text_input q_datetime now ts a) = Some a'
     \<Longrightarrow> reachable fromiso tz a'"
| edit:
    "reachable fromiso tz a
     \<Longrightarrow> state_of (edit_reminder_dialog tz reminder_id dialog now a) = Some a'
     \<Longrightarrow> reachable fromiso tz a'"
| delete:
    "reachable fromiso tz a
     \<Longrightarrow> state_of (delete_reminder tz selected confirm a) = Some a'
     \<Longrightarrow> reachable fromiso tz a'"
| wake:
    "reachable fromiso tz a
     \<Longrightarrow> scan tz (aware now) (reminders a) = ((evs, rs), err)
     \<Longrightarrow> reachable fromiso tz (a\<lparr>reminders := rs\<rparr>)"
| close:
    "reachable fromiso tz a
     \<Longrightarrow> state_of (save_reminders a) = Some a'
     \<Longrightarrow> reachable fromiso tz a'"

text \<open>
  A settings file with two reminders, the later one first, and a parser that reads the
  timestamps of the sample files.
\<close>

definition parse_sample :: "ustr \<Rightarrow> datetime option" where
  "parse_sample s =
     (if s = str ''2024-06-01T17:00:00+00:00'' then Some (Aware teatime 0)
      else if s = str ''2024-06-01T19:00:00+00:00'' then Some (Aware (noon\<lparr>hour := 19\<rparr>) 0)
      else None)"

definition two_file :: json_file where
  "two_file =
     JArray [JObject [(''id'', PNum 4), (''text'', PStr (str ''supper'')),
                      (''dateTime'', PStr (str ''2024-06-01T19:00:00+00:00'')),
                      (''notified'', PBool False)],
             JObject [(''id'', PNum 2), (''text'', PStr (str ''tea'')),
                      (''dateTime'', PStr (str ''2024-06-01T17:00:00+00:00'')),
                      (''notified'', PBool False)]]"

definition two_app :: app where
  "two_app = \<lparr>reminders = [tea, supper], settings_file = two_file\<rparr>"

text \<open>
  A settings file whose two reminders have the same id, and one whose reminder has a
  number as text; with the stores loaded from them.
\<close>

definition late_tea :: reminder where
  "late_tea = [(''id'', PNum 2), (''text'', PStr (str ''late tea'')),
               (''dateTime'', PDatetime (Aware (noon\<lparr>hour := 19\<rparr>) 0)), (''notified'', PBool False)]"

definition dup_file :: json_file where
  "dup_file =
     JArray [JObject [(''id'', PNum 2), (''text'', PStr (str ''tea'')),
                      (''dateTime'', PStr (str ''2024-06-01T17:00:00+00:00'')),
                      (''notified'', PBool False)],
             JObject [(''id'', PNum 2), (''text'', PStr (str ''late tea'')),
                      (''dateTime'', PStr (str ''2024-06-01T19:00:00+00:00'')),
                      (''notified'', PBool False)]]"

definition dup_app :: app where
  "dup_app = \<lparr>reminders = [tea, late_tea], settings_file = dup_file\<rparr>"

definition five :: reminder where
  "five = [(''id'', PNum 2), (''text'', PNum 5), (''dateTime'', PDatetime (Aware teatime 0)),
           (''notified'', PBool False)]"

definition five_file :: json_file where
  "five_file =
     JArray [JObject [(''id'', PNum 2), (''text'', PNum 5),
                      (''dateTime'', PStr (str ''2024-06-01T17:00:00+00:00'')),
                      (''notified'', PBool False)]]"

definition five_app :: app where
  "five_app = \<lparr>reminders = [five], settings_file = five_file\<rparr>"

text \<open>The ids of the reminders are pairwise different (as \<^verbatim>\<open>==\<close> compares them).\<close>

definition same_id :: "reminder \<Rightarrow> reminder \<Rightarrow> bool" where
  "same_id r r' =
     (case (map_of r ''id'', map_of r' ''id'') of
        (Some x, Some y) \<Rightarrow> py_eq x y
      | (None, None) \<Rightarrow> True
      | _ \<Rightarrow> False)"

fun distinct_ids :: "reminder list \<Rightarrow> bool" where
  "distinct_ids [] = True"
| "distinct_ids (r # rs) = (list_all (\<lambda>r'. \<not> same_id r r') rs \<and> distinct_ids rs)"

text \<open>
  For saving and loading: a reminder has a datetime under \<^verbatim>\<open>dateTime\<close>; the copy of it
  that goes to the file; a dictionary that \<^verbatim>\<open>json.dump\<close> can write once its \<^verbatim>\<open>dateTime\<close> is a
  string (no key twice, no datetime under another key); the text, due time and
  \<^verbatim>\<open>notified\<close> of a reminder; and a parser that reads back the ISO format of the due time of
  a reminder.
\<close>

definition has_datetime :: "reminder \<Rightarrow> bool" where
  "has_datetime r = (get_datetime r \<noteq> None)"

definition iso_copy :: "reminder \<Rightarrow> reminder" where
  "iso_copy r =
     (case get_datetime r of
        None \<Rightarrow> r
      | Some d \<Rightarrow> setitem ''dateTime'' (PStr (str (isoformat d))) r)"

definition dumpable :: "reminder \<Rightarrow> bool" where
  "dumpable r =
     (distinct (map fst r)
      \<and> list_all (\<lambda>kv. fst kv = ''dateTime'' \<or> serialisable (snd kv)) r)"



text \<open>A reminder whose \<^verbatim>\<open>dateTime\<close> is not a datetime.\<close>

definition soon :: reminder where
  "soon = [(''id'', PNum 7), (''text'', PStr (str ''soon'')), (''dateTime'', PStr (str ''soon'')),
           (''notified'', PBool False)]"


definition mixed_app :: app where
  "mixed_app = \<lparr>reminders = [tea, soon], settings_file = FileNotFound\<rparr>"

section \<open>Sorting\<close>

lemma key_lt_aware:
  "aware_due a \<Longrightarrow> aware_due b \<Longrightarrow> key_lt a b = (due_instant a < due_instant b)"
  by (auto simp: aware_due_def due_instant_def key_lt_def get_datetime_def
           split: option.splits pyval.splits datetime.splits)

lemma insort_lt_aware:
  "aware_due x \<Longrightarrow> \<forall>r \<in> set ys. aware_due r \<Longrightarrow>
   insort_lt key_lt x ys = insort_key due_instant x ys"
  by (induction ys) (auto simp: key_lt_aware)

lemma sort_lt_aware:
  "\<forall>r \<in> set rs. aware_due r \<Longrightarrow> sort_lt key_lt rs = sort_key due_instant rs"
proof (induction rs)
  case Nil
  show ?case by (simp add: sort_lt_def)
next
  case (Cons r rs)
  then have "sort_lt key_lt rs = sort_key due_instant rs" by simp
  moreover have "\<forall>x \<in> set (sort_key due_instant rs). aware_due x"
    using Cons.prems by simp
  ultimately show ?case
    using Cons.prems by (simp add: sort_lt_def sort_key_def insort_lt_aware)
qed

lemma aware_due_key:
  "aware_due r \<Longrightarrow> map_of r ''dateTime'' \<noteq> None
     \<and> Option.bind (map_of r ''dateTime'') kind = Some 3"
  by (auto simp: aware_due_def get_datetime_def split: option.splits pyval.splits datetime.splits)

lemma sort_key_short: "length xs < 2 \<Longrightarrow> sort_key f xs = xs"
  by (cases xs) (auto simp: sort_key_def)

lemma sort_reminders_aware:
  assumes "\<forall>r \<in> set rs. aware_due r"
  shows "sort_reminders rs = Inr (sort_key due_instant rs)"
proof (cases "length rs < 2")
  case True
  then show ?thesis
    using assms by (auto simp: sort_reminders_def sort_key_short dest: aware_due_key)
next
  case False
  then have "rs \<noteq> []" by auto
  then have "hd rs \<in> set rs" by simp
  then have "Option.bind (map_of (hd rs) ''dateTime'') kind = Some 3"
    using assms aware_due_key by blast
  then show ?thesis
    using assms False aware_due_key
    by (auto simp: sort_reminders_def sort_lt_aware simp del: bind_eq_None_conv)
qed

section \<open>Dictionaries\<close>

lemma map_of_setitem: "map_of (setitem k v r) = (map_of r)(k \<mapsto> v)"
  by (induction r) (auto simp: fun_eq_iff)

lemma map_fst_setitem:
  "map_of r k \<noteq> None \<Longrightarrow> map fst (setitem k v r) = map fst r"
  by (induction r) auto

lemma get_datetime_setitem:
  "k \<noteq> ''dateTime'' \<Longrightarrow> get_datetime (setitem k v r) = get_datetime r"
  by (simp add: get_datetime_def map_of_setitem)

lemma aware_due_setitem:
  "k \<noteq> ''dateTime'' \<Longrightarrow> aware_due (setitem k v r) = aware_due r"
  by (simp add: aware_due_def get_datetime_setitem)

lemma due_instant_setitem:
  "k \<noteq> ''dateTime'' \<Longrightarrow> due_instant (setitem k v r) = due_instant r"
  by (simp add: due_instant_def get_datetime_setitem)

lemma set_setitem: "set (setitem k v r) \<subseteq> insert (k, v) (set r)"
  by (induction r) auto

lemma fst_set_setitem: "fst ` set (setitem k v r) = insert k (fst ` set r)"
  by (induction r) auto

lemma distinct_setitem: "distinct (map fst r) \<Longrightarrow> distinct (map fst (setitem k v r))"
proof (induction r)
  case Nil
  show ?case by simp
next
  case (Cons p r)
  then show ?case
    using fst_set_setitem [of k v r] by (cases p) auto
qed

lemma list_all_setitem: "P (k, v) \<Longrightarrow> list_all P r \<Longrightarrow> list_all P (setitem k v r)"
  using set_setitem [of k v r] by (auto simp: list_all_iff)

lemma get_notified_setitem:
  "k \<noteq> ''notified'' \<Longrightarrow> get_notified (setitem k v r) = get_notified r"
  by (simp add: get_notified_def map_of_setitem)

lemma has_text_setitem: "k \<noteq> ''text'' \<Longrightarrow> has_text (setitem k v r) = has_text r"
  by (simp add: has_text_def map_of_setitem)

lemma has_text_set_text: "has_text (setitem ''text'' (PStr t) r)"
  by (simp add: has_text_def map_of_setitem)

lemma aware_due_set_dateTime: "aware_due (setitem ''dateTime'' (PDatetime (Aware c off)) r)"
  by (simp add: aware_due_def get_datetime_def map_of_setitem)

lemma astimezone_aware: "astimezone tz c = Inr d \<Longrightarrow> \<exists>c' off. d = Aware c' off"
  by (auto simp: astimezone_def split: sum.splits prod.splits)

lemma to_aware_Aware: "to_aware tz (Aware c off) = Inr (Aware c off)"
  by (simp add: to_aware_def)

section \<open>Well-formed reminders\<close>

lemma well_formed_distinct: "well_formed r \<Longrightarrow> distinct (map fst r)"
  and well_formed_aware_due: "well_formed r \<Longrightarrow> aware_due r"
  and well_formed_id: "well_formed r \<Longrightarrow> map_of r ''id'' \<noteq> None"
  and well_formed_text: "well_formed r \<Longrightarrow> map_of r ''text'' \<noteq> None"
  and well_formed_serialisable:
    "well_formed r \<Longrightarrow> list_all (\<lambda>kv. fst kv = ''dateTime'' \<or> serialisable (snd kv)) r"
  unfolding well_formed_def by blast+

lemma well_formed_aware: "list_all well_formed rs \<Longrightarrow> \<forall>r \<in> set rs. aware_due r"
  by (simp add: list_all_iff well_formed_def)

lemma well_formed_setitem:
  assumes "well_formed r" and "k \<noteq> ''dateTime''" and "serialisable v"
  shows "well_formed (setitem k v r)"
proof -
  have "distinct (map fst (setitem k v r))"
    using well_formed_distinct [OF assms(1)] by (rule distinct_setitem)
  moreover have "aware_due (setitem k v r)"
    using well_formed_aware_due [OF assms(1)] assms(2) by (simp add: aware_due_setitem)
  moreover have "map_of (setitem k v r) ''id'' \<noteq> None"
    using well_formed_id [OF assms(1)] by (simp add: map_of_setitem)
  moreover have "map_of (setitem k v r) ''text'' \<noteq> None"
    using well_formed_text [OF assms(1)] by (simp add: map_of_setitem)
  moreover have "list_all (\<lambda>kv. fst kv = ''dateTime'' \<or> serialisable (snd kv)) (setitem k v r)"
    using well_formed_serialisable [OF assms(1)] assms(3) by (simp add: list_all_setitem)
  ultimately show ?thesis
    unfolding well_formed_def by blast
qed

lemma well_formed_set_text:
  "well_formed r \<Longrightarrow> well_formed (setitem ''text'' (PStr t) r)"
  by (simp add: well_formed_setitem)

lemma well_formed_set_dateTime:
  assumes "well_formed r"
  shows "well_formed (setitem ''dateTime'' (PDatetime (Aware c off)) r)"
proof -
  let ?r = "setitem ''dateTime'' (PDatetime (Aware c off)) r"
  have "distinct (map fst ?r)"
    using well_formed_distinct [OF assms] by (rule distinct_setitem)
  moreover have "aware_due ?r"
    by (rule aware_due_set_dateTime)
  moreover have "map_of ?r ''id'' \<noteq> None"
    using well_formed_id [OF assms] by (simp add: map_of_setitem)
  moreover have "map_of ?r ''text'' \<noteq> None"
    using well_formed_text [OF assms] by (simp add: map_of_setitem)
  moreover have "list_all (\<lambda>kv. fst kv = ''dateTime'' \<or> serialisable (snd kv)) ?r"
    using well_formed_serialisable [OF assms] by (simp add: list_all_setitem)
  ultimately show ?thesis
    unfolding well_formed_def by blast
qed

lemma well_formed_new_reminder: "well_formed (new_reminder ts t (Aware c off))"
  by (simp add: well_formed_def new_reminder_def aware_due_def get_datetime_def)

section \<open>Refreshing the list and saving\<close>

lemma aware_due_getitem:
  "aware_due r \<Longrightarrow>
   \<exists>c off. getitem r ''dateTime'' = Inr (PDatetime (Aware c off))
          \<and> get_datetime r = Some (Aware c off)"
  by (auto simp: aware_due_def get_datetime_def getitem_def
           split: option.splits pyval.splits datetime.splits)

lemma has_text_getitem:
  "has_text r \<Longrightarrow> \<exists>t. getitem r ''text'' = Inr (PStr t) \<and> map_of r ''text'' = Some (PStr t)"
  by (auto simp: has_text_def getitem_def split: option.splits pyval.splits)

lemma present_getitem: "map_of r k \<noteq> None \<Longrightarrow> \<exists>v. getitem r k = Inr v"
  by (auto simp: getitem_def)

lemma update_list_well_formed:
  "list_all well_formed rs \<Longrightarrow> \<exists>ids. update_list tz rs = Inr ids"
proof (induction rs)
  case Nil
  show ?case by simp
next
  case (Cons r rs)
  then obtain ids where ids: "update_list tz rs = Inr ids" by auto
  from Cons.prems have wf: "well_formed r" by simp
  obtain c off where d: "getitem r ''dateTime'' = Inr (PDatetime (Aware c off))"
    using aware_due_getitem [OF well_formed_aware_due [OF wf]] by blast
  obtain t where t: "getitem r ''text'' = Inr t"
    using present_getitem [OF well_formed_text [OF wf]] by blast
  obtain v where v: "getitem r ''id'' = Inr v"
    using present_getitem [OF well_formed_id [OF wf]] by blast
  show ?case
    by (simp add: ids d t v to_aware_def)
qed

lemma serialisable_setitem:
  "distinct (map fst r) \<Longrightarrow> list_all (\<lambda>kv. fst kv = k \<or> serialisable (snd kv)) r
   \<Longrightarrow> serialisable v \<Longrightarrow> (k', x) \<in> set (setitem k v r) \<Longrightarrow> serialisable x"
proof (induction r)
  case Nil
  then show ?case by simp
next
  case (Cons p r)
  then show ?case
    by (cases p) (auto simp: list_all_iff split: if_splits)
qed

lemma in_reminders_to_save:
  "r \<in> set (reminders_to_save rs) \<Longrightarrow>
   \<exists>r0 d. r0 \<in> set rs \<and> get_datetime r0 = Some d
          \<and> r = setitem ''dateTime'' (PStr (str (isoformat d))) r0"
proof -
  assume "r \<in> set (reminders_to_save rs)"
  then obtain r0 where r0: "r0 \<in> set rs"
      "r \<in> set (case get_datetime r0 of None \<Rightarrow> []
                   | Some d \<Rightarrow> [setitem ''dateTime'' (PStr (str (isoformat d))) r0])"
    by (auto simp: reminders_to_save_def)
  then show ?thesis
    by (cases "get_datetime r0") auto
qed

lemma reminders_to_save_serialisable:
  assumes "list_all well_formed rs" and "r \<in> set (reminders_to_save rs)" and "kv \<in> set r"
  shows "serialisable (snd kv)"
proof -
  from assms(2) obtain r0 d where r0: "r0 \<in> set rs" "get_datetime r0 = Some d"
      "r = setitem ''dateTime'' (PStr (str (isoformat d))) r0"
    using in_reminders_to_save by blast
  from r0(1) assms(1) have "well_formed r0" by (simp add: list_all_iff)
  then have "distinct (map fst r0)"
      "list_all (\<lambda>kv. fst kv = ''dateTime'' \<or> serialisable (snd kv)) r0"
    by (simp_all add: well_formed_def)
  then show ?thesis
    using serialisable_setitem [of r0 "''dateTime''" "PStr (str (isoformat d))" "fst kv" "snd kv"]
      assms(3) r0(3)
    by simp
qed

lemma save_reminders_well_formed:
  "list_all well_formed (reminders a) \<Longrightarrow>
   save_reminders a
     = Done (a\<lparr>settings_file := JArray (map JObject (reminders_to_save (reminders a)))\<rparr>)"
  using reminders_to_save_serialisable [of "reminders a"]
  by (auto simp: save_reminders_def Let_def)

lemma update_and_save_well_formed:
  "list_all well_formed (reminders a) \<Longrightarrow>
   update_and_save tz a
     = Done (a\<lparr>settings_file := JArray (map JObject (reminders_to_save (reminders a)))\<rparr>)"
  using update_list_well_formed [of "reminders a" tz]
  by (auto simp: update_and_save_def save_reminders_well_formed)

lemma sorted_by_due_sort_key:
  "\<forall>r \<in> set rs. aware_due r \<Longrightarrow> sorted_by_due (sort_key due_instant rs)"
  by (simp add: sorted_by_due_def list_all_iff)

lemma list_all_sort_key: "list_all P (sort_key f rs) = list_all P rs"
  by (simp add: list_all_iff)

section \<open>Adding a reminder\<close>

text \<open>
  C3: \<^verbatim>\<open>add_reminder\<close> with a text that is empty (the handler strips it first, so a text
  of white space only counts as empty) or with a due time that is not after the clock
  shows the "Input Error" box and returns with the state, the store and the file, exactly
  as it was: nothing is inserted and nothing modified. This holds for every store.
\<close>

theorem add_reminder_invalid_input:
  "strip text_input = []
     \<or> (astimezone tz q_datetime = Inr due_at \<and> dt_le due_at (aware now) = Inr True)
   \<Longrightarrow> add_reminder tz text_input q_datetime now ts a = Warned Input_Error a"
  by (auto simp: add_reminder_def Let_def)

lemma noon_not_after_noon:
  "astimezone (fixed_zone 0) noon = Inr (Aware noon 0)
   \<and> dt_le (Aware noon 0) (aware (noon, 0)) = Inr True"
  by (simp add: astimezone_def fixed_zone_def aware_def)

lemma strip_spaces: "strip [0xA0, 0x3000, 0x20] = []"
  by (simp add: strip_def is_space_def)

theorem add_reminder_invalid_input_witness:
  "astimezone (fixed_zone 0) noon = Inr (Aware noon 0)
   \<and> dt_le (Aware noon 0) (aware (noon, 0)) = Inr True
   \<and> add_reminder (fixed_zone 0) (str ''call home'') noon (noon, 0) 1 tea_app
       = Warned Input_Error tea_app
   \<and> strip [0xA0, 0x3000, 0x20] = []
   \<and> add_reminder (fixed_zone 0) [0xA0, 0x3000, 0x20] one_pm (noon, 0) 1 tea_app
       = Warned Input_Error tea_app"
proof -
  have "add_reminder (fixed_zone 0) (str ''call home'') noon (noon, 0) 1 tea_app
        = Warned Input_Error tea_app"
    using noon_not_after_noon by (intro add_reminder_invalid_input) blast
  moreover have "add_reminder (fixed_zone 0) [0xA0, 0x3000, 0x20] one_pm (noon, 0) 1 tea_app
        = Warned Input_Error tea_app"
    using strip_spaces by (intro add_reminder_invalid_input) blast
  ultimately show ?thesis
    using noon_not_after_noon strip_spaces by blast
qed

text \<open>
  C4: for every text that is not empty (after \<^verbatim>\<open>strip()\<close>, the text the handler works
  with) and every due time after the clock, \<^verbatim>\<open>add_reminder\<close> on a store of well-formed
  reminders ends normally; the store then holds the reminders it held, each as it was, and
  exactly one more, with that text, that due time and \<^verbatim>\<open>notified\<close> false; and it is in
  ascending order of due time.
\<close>

theorem add_reminder_valid_input:
  assumes "strip text_input \<noteq> []"
    and "astimezone tz q_datetime = Inr due_at"
    and "dt_le due_at (aware now) = Inr False"
    and "list_all well_formed (reminders a)"
  shows "\<exists>a'. add_reminder tz text_input q_datetime now ts a = Done a'
            \<and> mset (reminders a')
                = mset (reminders a)
                  + {#[(''id'', PNum ts), (''text'', PStr (strip text_input)),
                       (''dateTime'', PDatetime due_at), (''notified'', PBool False)]#}
            \<and> sorted_by_due (reminders a')"
proof -
  let ?new = "new_reminder ts (strip text_input) due_at"
  let ?rs = "sort_key due_instant (reminders a @ [?new])"
  obtain c off where due_at: "due_at = Aware c off"
    using astimezone_aware [OF assms(2)] by blast
  have wf_new: "well_formed ?new"
    unfolding due_at by (rule well_formed_new_reminder)
  then have aware: "\<forall>r \<in> set (reminders a @ [?new]). aware_due r"
    using assms(4) well_formed_aware well_formed_aware_due by auto
  then have sorted: "sort_reminders (reminders a @ [?new]) = Inr ?rs"
    by (rule sort_reminders_aware)
  have "list_all well_formed ?rs"
    using assms(4) wf_new by (simp add: list_all_sort_key)
  then have "\<exists>f. update_and_save tz (a\<lparr>reminders := ?rs\<rparr>)
                 = Done (a\<lparr>reminders := ?rs, settings_file := f\<rparr>)"
    using update_and_save_well_formed [of "a\<lparr>reminders := ?rs\<rparr>" tz] by auto
  then obtain f where
    "add_reminder tz text_input q_datetime now ts a
       = Done (a\<lparr>reminders := ?rs, settings_file := f\<rparr>)"
    using assms(1,2,3) sorted by (auto simp: add_reminder_def new_reminder_def Let_def)
  moreover have "mset ?rs = mset (reminders a) + {#?new#}"
    by simp
  moreover have "sorted_by_due ?rs"
    using aware by (rule sorted_by_due_sort_key)
  ultimately show ?thesis
    by (auto simp: new_reminder_def)
qed

lemma strip_call_home: "strip (str ''call home'') = str ''call home''"
  by (simp add: strip_def is_space_def str_def)

lemma str_call_home_not_empty: "str ''call home'' \<noteq> []"
  by (simp add: str_def)

lemma one_pm_zone: "astimezone (fixed_zone 0) one_pm = Inr (Aware one_pm 0)"
  by (simp add: astimezone_def fixed_zone_def)

lemma one_pm_after_noon: "dt_le (Aware one_pm 0) (aware (noon, 0)) = Inr False"
  by (simp add: aware_def one_pm_def noon_def wall_us_def)

lemma well_formed_tea: "well_formed tea"
  by (simp add: well_formed_def tea_def aware_due_def get_datetime_def)

theorem add_reminder_valid_input_witness:
  "strip (str ''call home'') \<noteq> []
   \<and> astimezone (fixed_zone 0) one_pm = Inr (Aware one_pm 0)
   \<and> dt_le (Aware one_pm 0) (aware (noon, 0)) = Inr False
   \<and> list_all well_formed (reminders tea_app)
   \<and> (\<exists>a'. add_reminder (fixed_zone 0) (str ''call home'') one_pm (noon, 0) 3 tea_app = Done a'
            \<and> mset (reminders a')
                = mset (reminders tea_app)
                  + {#[(''id'', PNum 3), (''text'', PStr (strip (str ''call home''))),
                       (''dateTime'', PDatetime (Aware one_pm 0)), (''notified'', PBool False)]#}
            \<and> sorted_by_due (reminders a'))"
proof -
  have h1: "strip (str ''call home'') \<noteq> []"
    by (simp add: strip_call_home str_call_home_not_empty)
  have h4: "list_all well_formed (reminders tea_app)"
    by (simp add: tea_app_def well_formed_tea)
  from add_reminder_valid_input [OF h1 one_pm_zone one_pm_after_noon h4, of 3]
    h1 one_pm_zone one_pm_after_noon h4
  show ?thesis by blast
qed

section \<open>The due-check\<close>









section \<open>Editing a reminder\<close>

lemma find_id_less: "find_id v rs = Inr (Some i) \<Longrightarrow> i < length rs"
proof (induction rs arbitrary: i)
  case Nil
  then show ?case by simp
next
  case (Cons r rs)
  then show ?case
    by (auto split: sum.splits if_splits option.splits)
qed

lemma list_all_update: "list_all P rs \<Longrightarrow> P r \<Longrightarrow> list_all P (rs[i := r])"
  by (metis (no_types, lifting) insertE list_all_iff set_update_subset_insert subsetD)

lemma dt_lt_aware:
  "dt_le (Aware c off) (aware now) = Inr False \<Longrightarrow> dt_lt (aware now) (Aware c off) = Inr True"
  by (auto simp: aware_def)

lemma dt_le_due_instant:
  "get_datetime r = Some (Aware c off) \<Longrightarrow>
   dt_le (Aware c off) (aware now) = Inr (due_instant r \<le> instant (aware now))"
  by (simp add: due_instant_def aware_def)

text \<open>
  C2: for a store of well-formed reminders in which the reminder edited (the first one
  with the id of the item, at position \<open>i\<close>, its text a string) is present, an edit
  accepted with a text
  that is not empty (after \<^verbatim>\<open>strip()\<close>) and a due time after the clock ends normally. The
  reminder then has the new text and the new due time; its \<^verbatim>\<open>notified\<close> is set to false if
  it was notified or its previous due time was not after the clock, and is left as it was
  otherwise; its other entries, and the other reminders, are as before; and the store is
  in ascending order of due time.
\<close>

theorem edit_reminder_dialog_accepted:
  assumes "list_all well_formed (reminders a)"
    and "find_id reminder_id (reminders a) = Inr (Some i)"
    and "has_text (reminders a ! i)"
    and "strip text_input \<noteq> []"
    and "astimezone tz q_datetime = Inr due_at"
    and "dt_le due_at (aware now) = Inr False"
  shows "\<exists>a' r'.
           edit_reminder_dialog tz reminder_id (Some (text_input, q_datetime)) now a = Done a'
           \<and> mset (reminders a') = mset ((reminders a)[i := r'])
           \<and> map_of r'
               = (if truthy (get_notified (reminders a ! i))
                     \<or> due_instant (reminders a ! i) \<le> instant (aware now)
                  then (map_of (reminders a ! i))
                         (''text'' \<mapsto> PStr (strip text_input),
                          ''dateTime'' \<mapsto> PDatetime due_at,
                          ''notified'' \<mapsto> PBool False)
                  else (map_of (reminders a ! i))
                         (''text'' \<mapsto> PStr (strip text_input),
                          ''dateTime'' \<mapsto> PDatetime due_at))
           \<and> sorted_by_due (reminders a')"
proof -
  let ?r = "reminders a ! i"
  let ?r1 = "setitem ''dateTime'' (PDatetime due_at) (setitem ''text'' (PStr (strip text_input)) ?r)"
  let ?reset = "truthy (get_notified ?r) \<or> due_instant ?r \<le> instant (aware now)"
  let ?r2 = "if ?reset then setitem ''notified'' (PBool False) ?r1 else ?r1"
  let ?rs = "sort_key due_instant ((reminders a)[i := ?r2])"
  obtain c' off' where due_at: "due_at = Aware c' off'"
    using astimezone_aware [OF assms(5)] by blast
  have i: "i < length (reminders a)"
    using assms(2) by (rule find_id_less)
  then have wf: "well_formed ?r"
    using assms(1) by (simp add: list_all_length)
  obtain c off where g: "getitem ?r ''dateTime'' = Inr (PDatetime (Aware c off))"
      and d: "get_datetime ?r = Some (Aware c off)"
    using aware_due_getitem [OF well_formed_aware_due [OF wf]] by blast
  obtain t where t: "getitem ?r ''text'' = Inr (PStr t)"
    using has_text_getitem [OF assms(3)] by blast
  have n: "get_notified ?r1 = get_notified ?r"
    by (simp add: get_notified_setitem)
  have wf1: "well_formed ?r1"
    unfolding due_at using wf by (intro well_formed_set_dateTime well_formed_set_text)
  then have wf2: "well_formed ?r2"
    by (simp add: well_formed_setitem)
  then have all: "list_all well_formed ((reminders a)[i := ?r2])"
    using assms(1) by (rule list_all_update [rotated])
  then have s: "sort_reminders ((reminders a)[i := ?r2]) = Inr ?rs"
    using well_formed_aware sort_reminders_aware by blast
  have "list_all well_formed ?rs"
    using all by (simp add: list_all_sort_key)
  then have "\<exists>f. update_and_save tz (a\<lparr>reminders := ?rs\<rparr>)
                 = Done (a\<lparr>reminders := ?rs, settings_file := f\<rparr>)"
    using update_and_save_well_formed [of "a\<lparr>reminders := ?rs\<rparr>" tz] by auto
  then obtain f where u: "update_and_save tz (a\<lparr>reminders := ?rs\<rparr>)
                 = Done (a\<lparr>reminders := ?rs, settings_file := f\<rparr>)"
    by blast
  have lt: "dt_lt (aware now) due_at = Inr True"
    using assms(6) unfolding due_at by (rule dt_lt_aware)
  have le: "dt_le (Aware c off) (aware now) = Inr (due_instant ?r \<le> instant (aware now))"
    using d by (rule dt_le_due_instant)
  have "edit_reminder_dialog tz reminder_id (Some (text_input, q_datetime)) now a
          = (case sort_reminders ((reminders a)[i := ?r2]) of
               Inl e \<Rightarrow> Raised e
             | Inr rs \<Rightarrow> update_and_save tz (a\<lparr>reminders := rs\<rparr>))"
    by (auto simp: edit_reminder_dialog_def Let_def assms(2,4,5,6) g t to_aware_def lt n le)
  also have "\<dots> = update_and_save tz (a\<lparr>reminders := ?rs\<rparr>)"
    by (simp only: s sum.case)
  also note u
  finally have "edit_reminder_dialog tz reminder_id (Some (text_input, q_datetime)) now a
          = Done (a\<lparr>reminders := ?rs, settings_file := f\<rparr>)" .
  moreover have "mset ?rs = mset ((reminders a)[i := ?r2])"
    by simp
  moreover have "map_of ?r2
       = (if ?reset
          then (map_of ?r)(''text'' \<mapsto> PStr (strip text_input), ''dateTime'' \<mapsto> PDatetime due_at,
                 ''notified'' \<mapsto> PBool False)
          else (map_of ?r)(''text'' \<mapsto> PStr (strip text_input), ''dateTime'' \<mapsto> PDatetime due_at))"
    by (simp add: map_of_setitem)
  moreover have "sorted_by_due ?rs"
    using all well_formed_aware sorted_by_due_sort_key by blast
  ultimately show ?thesis
    by (intro exI [of _ "a\<lparr>reminders := ?rs, settings_file := f\<rparr>"] exI [of _ ?r2]) simp
qed

lemma find_id_tea: "find_id (PNum 2) (reminders tea_app) = Inr (Some 0)"
  by (simp add: tea_app_def tea_def getitem_def)

lemma six_pm_zone: "astimezone (fixed_zone 0) six_pm = Inr (Aware six_pm 0)"
  by (simp add: astimezone_def fixed_zone_def)

lemma six_pm_after_noon: "dt_le (Aware six_pm 0) (aware (noon, 0)) = Inr False"
  by (simp add: aware_def six_pm_def noon_def wall_us_def)

theorem edit_reminder_dialog_accepted_witness:
  "list_all well_formed (reminders tea_app)
   \<and> find_id (PNum 2) (reminders tea_app) = Inr (Some 0)
   \<and> has_text (reminders tea_app ! 0)
   \<and> strip (str ''call home'') \<noteq> []
   \<and> astimezone (fixed_zone 0) six_pm = Inr (Aware six_pm 0)
   \<and> dt_le (Aware six_pm 0) (aware (noon, 0)) = Inr False
   \<and> (\<exists>a' r'.
         edit_reminder_dialog (fixed_zone 0) (PNum 2) (Some (str ''call home'', six_pm)) (noon, 0)
           tea_app = Done a'
         \<and> mset (reminders a') = mset ((reminders tea_app)[0 := r'])
         \<and> map_of r'
             = (if truthy (get_notified (reminders tea_app ! 0))
                   \<or> due_instant (reminders tea_app ! 0) \<le> instant (aware (noon, 0))
                then (map_of (reminders tea_app ! 0))
                       (''text'' \<mapsto> PStr (strip (str ''call home'')),
                        ''dateTime'' \<mapsto> PDatetime (Aware six_pm 0),
                        ''notified'' \<mapsto> PBool False)
                else (map_of (reminders tea_app ! 0))
                       (''text'' \<mapsto> PStr (strip (str ''call home'')),
                        ''dateTime'' \<mapsto> PDatetime (Aware six_pm 0)))
         \<and> sorted_by_due (reminders a'))"
proof -
  have h1: "list_all well_formed (reminders tea_app)"
    by (simp add: tea_app_def well_formed_tea)
  have h3: "strip (str ''call home'') \<noteq> []"
    by (simp add: strip_call_home str_call_home_not_empty)
  have h2: "has_text (reminders tea_app ! 0)"
    by (simp add: tea_app_def tea_def has_text_def)
  from edit_reminder_dialog_accepted [OF h1 find_id_tea h2 h3 six_pm_zone six_pm_after_noon]
    h1 find_id_tea h2 h3 six_pm_zone six_pm_after_noon
  show ?thesis by blast
qed

section \<open>Deleting a reminder\<close>

lemma load_nan_file:
  "load_reminders parse_teatime (fixed_zone 0) \<lparr>reminders = [], settings_file = nan_file\<rparr>
   = Done nan_app"
  by (simp add: load_reminders_def nan_file_def nan_app_def load_item_def parse_teatime_def
        to_aware_def setdefault_def sort_reminders_def getitem_def)

lemma update_list_nan_app: "update_list (fixed_zone 0) (reminders nan_app) = Inr [PNaN]"
  by (simp add: nan_app_def getitem_def to_aware_def)

lemma isoformat_teatime: "isoformat (Aware teatime 0) = ''2024-06-01T17:00:00+00:00''"
  by (simp add: isoformat_civil_def format_offset_def teatime_def noon_def dec2_def dec4_def
        digit_def)

lemma delete_nan_app: "delete_reminder (fixed_zone 0) (Some PNaN) True nan_app = Done nan_app"
  by (simp add: delete_reminder_def nan_app_def nan_file_def getitem_def update_and_save_def
        to_aware_def save_reminders_def reminders_to_save_def get_datetime_def isoformat_teatime
      del: isoformat.simps)

lemma edit_nan_app:
  "edit_reminder_dialog (fixed_zone 0) PNaN (Some (str ''cake'', six_pm)) (noon, 0) nan_app
   = Warned Not_Found nan_app"
  by (simp add: edit_reminder_dialog_def nan_app_def getitem_def)

text \<open>
  C8: \<^verbatim>\<open>delete_reminder\<close> does not report an id that the store does not have. The settings
  file \<open>nan_file\<close> holds one reminder whose id is \<^verbatim>\<open>NaN\<close>; it loads, and the list shows the
  reminder with that id as item data. No reminder of the store has an id equal to it
  (\<^verbatim>\<open>nan == nan\<close> is false). Deleting the item and confirming ends normally, with no
  message, the reminder still in the store and the file rewritten as it was, whereas
  \<^verbatim>\<open>edit_reminder_dialog\<close> on the same item shows "Could not find reminder data to edit".
\<close>

theorem delete_reminder_unknown_id:
  "load_reminders parse_teatime (fixed_zone 0) \<lparr>reminders = [], settings_file = nan_file\<rparr>
     = Done nan_app
   \<and> update_list (fixed_zone 0) (reminders nan_app) = Inr [PNaN]
   \<and> find_id PNaN (reminders nan_app) = Inr None
   \<and> delete_reminder (fixed_zone 0) (Some PNaN) True nan_app = Done nan_app
   \<and> edit_reminder_dialog (fixed_zone 0) PNaN (Some (str ''cake'', six_pm)) (noon, 0) nan_app
       = Warned Not_Found nan_app"
proof -
  have "find_id PNaN (reminders nan_app) = Inr None"
    by (simp add: nan_app_def getitem_def)
  with load_nan_file update_list_nan_app delete_nan_app edit_nan_app show ?thesis
    by blast
qed

section \<open>What each operation does to the list\<close>

lemma state_of_save_reminders:
  "state_of (save_reminders a) = Some a' \<Longrightarrow> reminders a' = reminders a"
  by (auto simp: save_reminders_def Let_def split: if_splits)

lemma state_of_update_and_save:
  "state_of (update_and_save tz a) = Some a' \<Longrightarrow> reminders a' = reminders a"
  by (auto simp: update_and_save_def state_of_save_reminders split: sum.splits)

lemma state_of_load_reminders:
  assumes "state_of (load_reminders fromiso tz a) = Some a'"
  shows "reminders a' = []
       \<or> (\<exists>items loaded. settings_file a = JArray items
             \<and> load_items fromiso tz items = Some loaded
             \<and> sort_reminders loaded = Inr (reminders a'))"
  using assms
  by (auto simp: load_reminders_def Let_def split: json_file.splits option.splits sum.splits)

lemma state_of_add_reminder:
  assumes "state_of (add_reminder tz text_input q_datetime now ts a) = Some a'"
  shows "reminders a' = reminders a
       \<or> (\<exists>c off. sort_reminders
                      (reminders a @ [new_reminder ts (strip text_input) (Aware c off)])
                    = Inr (reminders a'))"
proof (cases "strip text_input = []")
  case True
  then show ?thesis
    using assms by (simp add: add_reminder_def)
next
  case False
  show ?thesis
  proof (cases "astimezone tz q_datetime")
    case (Inl e)
    then show ?thesis
      using assms False by (simp add: add_reminder_def)
  next
    case (Inr d)
    then obtain c off where d: "d = Aware c off"
      using astimezone_aware by blast
    show ?thesis
      using assms False Inr d
      by (auto simp: add_reminder_def Let_def new_reminder_def
               dest!: state_of_update_and_save split: sum.splits bool.splits)
  qed
qed

lemma state_of_delete_reminder:
  assumes "state_of (delete_reminder tz selected confirm a) = Some a'"
  shows "reminders a' = reminders a
       \<or> (\<exists>v. remove_id v (reminders a) = Inr (reminders a'))"
  using assms
  by (auto simp: delete_reminder_def
           dest!: state_of_update_and_save split: option.splits sum.splits if_splits)

lemma state_of_edit_reminder_dialog:
  assumes "state_of (edit_reminder_dialog tz reminder_id dialog now a) = Some a'"
  shows "reminders a' = reminders a
       \<or> (\<exists>i r c off. i < length (reminders a) \<and> map_of r ''id'' = map_of (reminders a ! i) ''id''
             \<and> get_datetime r = Some (Aware c off)
             \<and> sort_reminders ((reminders a)[i := r]) = Inr (reminders a'))"
proof (cases "find_id reminder_id (reminders a)")
  case (Inl e)
  then show ?thesis
    using assms by (simp add: edit_reminder_dialog_def)
next
  case (Inr found)
  show ?thesis
  proof (cases found)
    case None
    then show ?thesis
      using assms Inr by (simp add: edit_reminder_dialog_def)
  next
    case (Some i)
    then have i: "i < length (reminders a)"
      using Inr find_id_less by blast
    show ?thesis
    proof (cases dialog)
      case None
      then show ?thesis
        using assms Inr Some
        by (auto simp: edit_reminder_dialog_def Let_def
                 split: sum.splits pyval.splits if_splits)
    next
      case (Some input)
      obtain text_input q_datetime where input: "input = (text_input, q_datetime)"
        by (cases input)
      show ?thesis
      proof (cases "astimezone tz q_datetime")
        case (Inl e)
        then show ?thesis
          using assms Inr \<open>found = Some i\<close> Some input
          by (auto simp: edit_reminder_dialog_def Let_def
                   split: sum.splits pyval.splits if_splits)
      next
        case (Inr d)
        then obtain c off where d: "d = Aware c off"
          using astimezone_aware by blast
        let ?r1 = "setitem ''dateTime'' (PDatetime (Aware c off))
                     (setitem ''text'' (PStr (strip text_input)) (reminders a ! i))"
        have r1: "map_of ?r1 ''id'' = map_of (reminders a ! i) ''id''"
            "get_datetime ?r1 = Some (Aware c off)"
          by (simp_all add: map_of_setitem get_datetime_def)
        have r2: "map_of (setitem ''notified'' (PBool False) ?r1) ''id'' = map_of (reminders a ! i) ''id''"
            "get_datetime (setitem ''notified'' (PBool False) ?r1) = Some (Aware c off)"
          by (simp_all add: map_of_setitem get_datetime_def)
        from assms \<open>find_id reminder_id (reminders a) = Inr found\<close> \<open>found = Some i\<close> Some input Inr d
        have "reminders a' = reminders a
            \<or> sort_reminders ((reminders a)[i := ?r1]) = Inr (reminders a')
            \<or> sort_reminders ((reminders a)[i := setitem ''notified'' (PBool False) ?r1])
                = Inr (reminders a')"
          by (auto simp: edit_reminder_dialog_def Let_def
                   dest!: state_of_update_and_save
                   split: sum.splits pyval.splits if_splits bool.splits)
        then show ?thesis
          using i r1 r2 by blast
      qed
    qed
  qed
qed

section \<open>The store stays sorted\<close>


lemma to_aware_is_aware: "to_aware tz d = Inr d' \<Longrightarrow> \<exists>c off. d' = Aware c off"
  by (cases d) (auto simp: to_aware_def dest: astimezone_aware)


lemma get_datetime_setdefault:
  "k \<noteq> ''dateTime'' \<Longrightarrow> get_datetime (setdefault k v r) = get_datetime r"
  by (auto simp: setdefault_def get_datetime_def map_add_def split: option.splits)


lemma load_item_result:
  "load_item fromiso tz item = Inr r \<Longrightarrow>
   \<exists>d c off. item = JObject d
      \<and> r = setdefault ''notified'' (PBool False) (setitem ''dateTime'' (PDatetime (Aware c off)) d)"
  by (auto simp: load_item_def dest!: to_aware_is_aware
           split: jitem.splits option.splits pyval.splits sum.splits)


lemma load_item_aware:
  assumes "load_item fromiso tz item = Inr r"
  shows "aware_due r"
proof -
  obtain d c off where
    r: "r = setdefault ''notified'' (PBool False) (setitem ''dateTime'' (PDatetime (Aware c off)) d)"
    using load_item_result [OF assms] by blast
  have "get_datetime (setitem ''dateTime'' (PDatetime (Aware c off)) d) = Some (Aware c off)"
    by (simp add: get_datetime_def map_of_setitem)
  then show ?thesis
    by (simp add: r aware_due_def get_datetime_setdefault)
qed


lemma load_items_aware: "load_items fromiso tz items = Some loaded \<Longrightarrow> list_all aware_due loaded"
proof (induction items arbitrary: loaded)
  case Nil
  then show ?case by simp
next
  case (Cons item items)
  then show ?case
    by (auto simp: load_item_aware split: sum.splits if_splits option.splits)
qed


lemma sort_reminders_sorted:
  "list_all aware_due rs \<Longrightarrow> sort_reminders rs = Inr rs' \<Longrightarrow> sorted_by_due rs'"
  using sort_reminders_aware [of rs] sorted_by_due_sort_key [of rs]
  by (simp add: list_all_iff)


lemma check_reminder_result:
  "check_reminder tz now_aware r = Inr (ev, r') \<Longrightarrow>
   r' = r \<or> r' = setitem ''notified'' (PBool True) r"
  by (auto simp: check_reminder_def split: option.splits sum.splits if_splits bool.splits
        pyval.splits)


lemma scan_same_dues:
  "scan tz now_aware rs = ((evs, rs'), err) \<Longrightarrow>
   map get_datetime rs' = map get_datetime rs"
proof (induction rs arbitrary: evs rs' err)
  case Nil
  then show ?case by simp
next
  case (Cons r rs)
  show ?case
  proof (cases "check_reminder tz now_aware r")
    case (Inl e)
    then show ?thesis
      using Cons.prems by simp
  next
    case (Inr p)
    obtain ev r1 where p: "p = (ev, r1)" by (cases p)
    obtain evs1 rs1 err1 where s: "scan tz now_aware rs = ((evs1, rs1), err1)"
      by (metis prod.exhaust)
    have "get_datetime r1 = get_datetime r"
      using check_reminder_result [of tz now_aware r ev r1] Inr p
      by (auto simp: get_datetime_setitem)
    moreover have "map get_datetime rs1 = map get_datetime rs"
      using s by (rule Cons.IH)
    ultimately show ?thesis
      using Cons.prems Inr p s by auto
  qed
qed


lemma list_all_as_map: "list_all P xs = (\<forall>b \<in> set (map P xs). b)"
  by (auto simp: list_all_iff)

lemma sorted_by_due_same_dues:
  assumes "map get_datetime rs' = map get_datetime rs" and "sorted_by_due rs"
  shows "sorted_by_due rs'"
proof -
  let ?aware = "\<lambda>d. case d of Some (Aware c off) \<Rightarrow> True | _ \<Rightarrow> False"
  let ?instant = "\<lambda>d. case d of Some (Aware c off) \<Rightarrow> wall_us c - off | _ \<Rightarrow> (0::int)"
  have a: "\<And>xs. map aware_due xs = map ?aware (map get_datetime xs)"
    by (simp add: aware_due_def [abs_def] comp_def)
  have i: "\<And>xs. map due_instant xs = map ?instant (map get_datetime xs)"
    by (simp add: due_instant_def [abs_def] comp_def)
  have "map aware_due rs' = map aware_due rs"
    by (simp only: a assms(1))
  then have "list_all aware_due rs' = list_all aware_due rs"
    by (simp only: list_all_as_map)
  moreover have "map due_instant rs' = map due_instant rs"
    by (simp only: i assms(1))
  ultimately show ?thesis
    using assms(2) by (simp add: sorted_by_due_def)
qed

lemma remove_id_filter:
  "remove_id v rs = Inr rs' \<Longrightarrow>
   rs' = filter (\<lambda>r. case map_of r ''id'' of None \<Rightarrow> True | Some x \<Rightarrow> \<not> py_eq x v) rs"
proof (induction rs arbitrary: rs')
  case Nil
  then show ?case by simp
next
  case (Cons r rs)
  then show ?case
    by (auto simp: getitem_def split: option.splits sum.splits if_splits)
qed


lemma sorted_by_due_filter: "sorted_by_due rs \<Longrightarrow> sorted_by_due (filter P rs)"
  by (auto simp: sorted_by_due_def list_all_iff intro: sorted_filter)


lemma sorted_by_due_update:
  assumes "sorted_by_due rs" and "get_datetime r = Some (Aware c off)"
  shows "list_all aware_due (rs[i := r])"
proof -
  have "aware_due r"
    using assms(2) by (simp add: aware_due_def)
  then show ?thesis
    using assms(1) by (simp add: sorted_by_due_def list_all_update)
qed


lemma sorted_by_due_append_new:
  "sorted_by_due rs \<Longrightarrow> list_all aware_due (rs @ [new_reminder ts t (Aware c off)])"
  by (simp add: sorted_by_due_def aware_due_def get_datetime_def new_reminder_def)


text \<open>
  C6: in every state the program reaches, by loading the settings file at start-up and
  then by any sequence of add, edit, delete (and scans of the checker thread), the
  reminders of the store all have an aware due time and are in ascending order of it.
\<close>


theorem reachable_sorted_by_due:
  "reachable fromiso tz a \<Longrightarrow> sorted_by_due (reminders a)"
proof (induction rule: reachable.induct)
  case (start f a)
  from state_of_load_reminders [OF start] show ?case
  proof
    assume "reminders a = []"
    then show ?thesis by (simp add: sorted_by_due_def)
  next
    assume "\<exists>items loaded. settings_file \<lparr>reminders = [], settings_file = f\<rparr> = JArray items
              \<and> load_items fromiso tz items = Some loaded
              \<and> sort_reminders loaded = Inr (reminders a)"
    then obtain items loaded where "load_items fromiso tz items = Some loaded"
        and s: "sort_reminders loaded = Inr (reminders a)"
      by blast
    then have "list_all aware_due loaded"
      by (simp add: load_items_aware)
    then show ?thesis
      using s by (rule sort_reminders_sorted)
  qed
next
  case (add a text_input q_datetime now ts a')
  from state_of_add_reminder [OF add.hyps(2)] show ?case
  proof
    assume "reminders a' = reminders a"
    then show ?thesis using add.IH by simp
  next
    assume "\<exists>c off. sort_reminders
                      (reminders a @ [new_reminder ts (strip text_input) (Aware c off)])
                    = Inr (reminders a')"
    then obtain c off where
      s: "sort_reminders (reminders a @ [new_reminder ts (strip text_input) (Aware c off)])
            = Inr (reminders a')"
      by blast
    have "list_all aware_due (reminders a @ [new_reminder ts (strip text_input) (Aware c off)])"
      using add.IH by (rule sorted_by_due_append_new)
    then show ?thesis
      using s by (rule sort_reminders_sorted)
  qed
next
  case (edit a reminder_id dialog now a')
  from state_of_edit_reminder_dialog [OF edit.hyps(2)] show ?case
  proof
    assume "reminders a' = reminders a"
    then show ?thesis using edit.IH by simp
  next
    assume "\<exists>i r c off. i < length (reminders a)
              \<and> map_of r ''id'' = map_of (reminders a ! i) ''id''
              \<and> get_datetime r = Some (Aware c off)
              \<and> sort_reminders ((reminders a)[i := r]) = Inr (reminders a')"
    then obtain i r c off where d: "get_datetime r = Some (Aware c off)"
        and s: "sort_reminders ((reminders a)[i := r]) = Inr (reminders a')"
      by blast
    have "list_all aware_due ((reminders a)[i := r])"
      using edit.IH d by (rule sorted_by_due_update)
    then show ?thesis
      using s by (rule sort_reminders_sorted)
  qed
next
  case (delete a selected confirm a')
  from state_of_delete_reminder [OF delete.hyps(2)] show ?case
  proof
    assume "reminders a' = reminders a"
    then show ?thesis using delete.IH by simp
  next
    assume "\<exists>v. remove_id v (reminders a) = Inr (reminders a')"
    then obtain v where "remove_id v (reminders a) = Inr (reminders a')"
      by blast
    then have "reminders a'
          = filter (\<lambda>r. case map_of r ''id'' of None \<Rightarrow> True | Some x \<Rightarrow> \<not> py_eq x v) (reminders a)"
      by (rule remove_id_filter)
    then show ?thesis
      using delete.IH by (simp add: sorted_by_due_filter)
  qed
next
  case (wake a now evs rs err)
  have "map get_datetime rs = map get_datetime (reminders a)"
    using wake.hyps(2) by (rule scan_same_dues)
  then have "sorted_by_due rs"
    using wake.IH by (rule sorted_by_due_same_dues)
  then show ?case by simp
next
  case (close a a')
  have "reminders a' = reminders a"
    using close.hyps(2) by (rule state_of_save_reminders)
  then show ?case using close.IH by simp
qed

lemma parse_sample_tea: "parse_sample (str ''2024-06-01T17:00:00+00:00'') = Some (Aware teatime 0)"
  by (simp add: parse_sample_def)

lemma parse_sample_supper:
  "parse_sample (str ''2024-06-01T19:00:00+00:00'') = Some (Aware (noon\<lparr>hour := 19\<rparr>) 0)"
  by (simp add: parse_sample_def str_def)

lemma load_items_two:
  "load_items parse_sample (fixed_zone 0)
     [JObject [(''id'', PNum 4), (''text'', PStr (str ''supper'')),
               (''dateTime'', PStr (str ''2024-06-01T19:00:00+00:00'')), (''notified'', PBool False)],
      JObject [(''id'', PNum 2), (''text'', PStr (str ''tea'')),
               (''dateTime'', PStr (str ''2024-06-01T17:00:00+00:00'')), (''notified'', PBool False)]]
   = Some [supper, tea]"
  by (simp add: load_item_def parse_sample_tea parse_sample_supper to_aware_def setdefault_def
        tea_def supper_def)

lemma sort_supper_tea: "sort_reminders [supper, tea] = Inr [tea, supper]"
  by (simp add: sort_reminders_def sort_lt_def key_lt_def tea_def supper_def teatime_def
        noon_def wall_us_def)

lemma update_list_two: "update_list (fixed_zone 0) [tea, supper] = Inr [PNum 2, PNum 4]"
  by (simp add: tea_def supper_def getitem_def to_aware_def)

lemma load_two_file:
  "load_reminders parse_sample (fixed_zone 0) \<lparr>reminders = [], settings_file = two_file\<rparr>
   = Done two_app"
  by (simp add: load_reminders_def two_file_def two_app_def load_items_two sort_supper_tea
        update_list_two del: load_items.simps update_list.simps)

theorem reachable_sorted_by_due_witness:
  "reachable parse_sample (fixed_zone 0) two_app \<and> sorted_by_due (reminders two_app)"
proof -
  have "state_of (load_reminders parse_sample (fixed_zone 0)
                    \<lparr>reminders = [], settings_file = two_file\<rparr>) = Some two_app"
    by (simp add: load_two_file)
  then have r: "reachable parse_sample (fixed_zone 0) two_app"
    by (rule reachable.start)
  from reachable_sorted_by_due [OF r] r show ?thesis
    by blast
qed

section \<open>Ids\<close>

lemma load_dup_file:
  "load_reminders parse_sample (fixed_zone 0) \<lparr>reminders = [], settings_file = dup_file\<rparr>
   = Done dup_app"
  by (simp add: load_reminders_def dup_file_def dup_app_def load_item_def parse_sample_tea
        parse_sample_supper to_aware_def setdefault_def tea_def late_tea_def
        sort_reminders_def sort_lt_def key_lt_def teatime_def noon_def wall_us_def getitem_def)

lemma update_list_dup_app: "update_list (fixed_zone 0) (reminders dup_app) = Inr [PNum 2, PNum 2]"
  by (simp add: dup_app_def tea_def late_tea_def getitem_def to_aware_def)

lemma delete_dup_app:
  "delete_reminder (fixed_zone 0) (Some (PNum 2)) True dup_app
   = Done \<lparr>reminders = [], settings_file = JArray []\<rparr>"
  by (simp add: delete_reminder_def dup_app_def tea_def late_tea_def getitem_def
        update_and_save_def save_reminders_def reminders_to_save_def)

text \<open>
  C9: the ids are not kept distinct. \<^verbatim>\<open>load_reminders\<close> takes the ids as the file has
  them: the file \<open>dup_file\<close> holds two reminders with the id 2, it loads, and the store
  then holds both. Both list items carry the id 2, and deleting either one deletes both
  reminders.
\<close>

theorem duplicate_ids_after_load:
  "load_reminders parse_sample (fixed_zone 0) \<lparr>reminders = [], settings_file = dup_file\<rparr>
     = Done dup_app
   \<and> reachable parse_sample (fixed_zone 0) dup_app
   \<and> reminders dup_app = [tea, late_tea]
   \<and> same_id tea late_tea
   \<and> \<not> distinct_ids (reminders dup_app)
   \<and> update_list (fixed_zone 0) (reminders dup_app) = Inr [PNum 2, PNum 2]
   \<and> delete_reminder (fixed_zone 0) (Some (PNum 2)) True dup_app
       = Done \<lparr>reminders = [], settings_file = JArray []\<rparr>"
proof -
  have "state_of (load_reminders parse_sample (fixed_zone 0)
                    \<lparr>reminders = [], settings_file = dup_file\<rparr>) = Some dup_app"
    by (simp add: load_dup_file)
  then have "reachable parse_sample (fixed_zone 0) dup_app"
    by (rule reachable.start)
  moreover have "same_id tea late_tea"
    by (simp add: same_id_def tea_def late_tea_def)
  moreover have "reminders dup_app = [tea, late_tea]"
    by (simp add: dup_app_def)
  ultimately show ?thesis
    using load_dup_file update_list_dup_app delete_dup_app by simp
qed

section \<open>The loop and a reminder it cannot handle\<close>

lemma check_reminder_bad_dateTime:
  "get_datetime r = None \<Longrightarrow> check_reminder tz now_aware r = Inr (None, r)"
  by (simp add: check_reminder_def)

lemma load_five_file:
  "load_reminders parse_sample (fixed_zone 0) \<lparr>reminders = [], settings_file = five_file\<rparr>
   = Done five_app"
  by (simp add: load_reminders_def five_file_def five_app_def load_item_def parse_sample_tea
        to_aware_def setdefault_def five_def sort_reminders_def getitem_def)

lemma run_five_app:
  "run (fixed_zone 0) [(True, (six_pm, 0)), (True, (six_pm, 0))] ([], reminders five_app)
   = (([], reminders five_app), Died TypeError)"
  by (simp add: five_app_def five_def check_reminder_def get_datetime_def to_aware_def
        get_notified_def aware_def six_pm_def teatime_def noon_def wall_us_def getitem_def)

text \<open>
  C7: the loop does end on a per-record error other than a bad \<^verbatim>\<open>dateTime\<close>. The file
  \<open>five_file\<close> holds one reminder whose text is the number 5 and whose due time has passed;
  it loads (the list shows it). At its first wake the thread finds the reminder due and
  emits its text through a signal declared for strings, which raises TypeError: the
  thread dies with the flag still set, nothing is emitted and the reminder is not marked,
  and the second wake never happens.
\<close>

theorem run_dies_on_bad_text:
  "load_reminders parse_sample (fixed_zone 0) \<lparr>reminders = [], settings_file = five_file\<rparr>
     = Done five_app
   \<and> reachable parse_sample (fixed_zone 0) five_app
   \<and> run (fixed_zone 0) [(True, (six_pm, 0)), (True, (six_pm, 0))] ([], reminders five_app)
       = (([], reminders five_app), Died TypeError)"
proof -
  have "state_of (load_reminders parse_sample (fixed_zone 0)
                    \<lparr>reminders = [], settings_file = five_file\<rparr>) = Some five_app"
    by (simp add: load_five_file)
  then have "reachable parse_sample (fixed_zone 0) five_app"
    by (rule reachable.start)
  then show ?thesis
    using load_five_file run_five_app by simp
qed

section \<open>Saving\<close>

lemma reminders_to_save_eq:
  "reminders_to_save rs = map iso_copy (filter has_datetime rs)"
  by (induction rs) (auto simp: reminders_to_save_def iso_copy_def has_datetime_def)

lemma dumpable_iso_copy:
  assumes "dumpable r" and "kv \<in> set (iso_copy r)"
  shows "serialisable (snd kv)"
proof (cases "get_datetime r")
  case None
  obtain k v where kv: "kv = (k, v)" by (cases kv)
  have mem: "(k, v) \<in> set r"
    using assms(2) None kv by (simp add: iso_copy_def)
  show ?thesis
  proof (cases "k = ''dateTime''")
    case True
    have "distinct (map fst r)"
      using assms(1) by (simp add: dumpable_def)
    then have "map_of r ''dateTime'' = Some v"
      using mem True by (simp add: map_of_is_SomeI)
    then show ?thesis
      using None kv by (cases v) (simp_all add: get_datetime_def)
  next
    case False
    have "list_all (\<lambda>kv. fst kv = ''dateTime'' \<or> serialisable (snd kv)) r"
      using assms(1) by (simp add: dumpable_def)
    then show ?thesis
      using mem False kv by (auto simp: list_all_iff)
  qed
next
  case (Some d)
  then show ?thesis
    using assms serialisable_setitem [of r "''dateTime''" "PStr (str (isoformat d))" "fst kv" "snd kv"]
    by (simp add: dumpable_def iso_copy_def)
qed

lemma save_reminders_dumpable:
  assumes "list_all dumpable (reminders a)"
  shows "save_reminders a
         = Done (a\<lparr>settings_file :=
                    JArray (map JObject (map iso_copy (filter has_datetime (reminders a))))\<rparr>)"
proof -
  have "\<forall>r \<in> set (reminders_to_save (reminders a)). \<forall>kv \<in> set r. serialisable (snd kv)"
    using assms dumpable_iso_copy by (auto simp: reminders_to_save_eq list_all_iff)
  then show ?thesis
    by (simp add: save_reminders_def Let_def reminders_to_save_eq)
qed

section \<open>Loading\<close>

lemma load_items_length:
  "load_items fromiso tz items = Some loaded \<Longrightarrow> length loaded \<le> length items"
proof (induction items arbitrary: loaded)
  case Nil
  then show ?case by simp
next
  case (Cons item items)
  then show ?case
    by (auto split: sum.splits if_splits option.splits)
qed

lemma load_reminders_loaded:
  assumes "state_of (load_reminders fromiso tz a) = Some a'" and "settings_file a = JArray items"
  shows "list_all aware_due (reminders a') \<and> length (reminders a') \<le> length items"
proof -
  from state_of_load_reminders [OF assms(1)] show ?thesis
  proof
    assume "reminders a' = []"
    then show ?thesis by simp
  next
    assume "\<exists>items loaded. settings_file a = JArray items
              \<and> load_items fromiso tz items = Some loaded
              \<and> sort_reminders loaded = Inr (reminders a')"
    then obtain loaded where l: "load_items fromiso tz items = Some loaded"
        and s: "sort_reminders loaded = Inr (reminders a')"
      using assms(2) by auto
    have a: "list_all aware_due loaded"
      using l by (rule load_items_aware)
    then have "reminders a' = sort_key due_instant loaded"
      using s sort_reminders_aware [of loaded] by (simp add: list_all_iff)
    then show ?thesis
      using a load_items_length [OF l] by (simp add: list_all_sort_key)
  qed
qed

text \<open>
  C10: \<^verbatim>\<open>save_reminders\<close> writes to the file exactly the reminders of the store whose
  \<^verbatim>\<open>dateTime\<close> is a datetime, in store order, each with the datetime as an ISO string, and
  leaves the others out without an error; the store itself is not changed. Whatever is
  loaded from that file afterwards holds only reminders with a datetime, and no more of
  them than were written: a reminder left out is lost. (The dictionaries are those
  \<^verbatim>\<open>json.dump\<close> can write: no key twice and no datetime under another key.)
\<close>

theorem save_reminders_omits_invalid:
  assumes "list_all dumpable (reminders a)"
  shows "\<exists>a'. save_reminders a = Done a'
            \<and> reminders a' = reminders a
            \<and> settings_file a'
                = JArray (map JObject (map iso_copy (filter has_datetime (reminders a))))
            \<and> length (filter has_datetime (reminders a)) \<le> length (reminders a)
            \<and> (\<forall>fromiso tz a''.
                  state_of (load_reminders fromiso tz a') = Some a''
                  \<longrightarrow> list_all has_datetime (reminders a'')
                      \<and> length (reminders a'') \<le> length (filter has_datetime (reminders a)))"
proof -
  let ?items = "map JObject (map iso_copy (filter has_datetime (reminders a)))"
  let ?a' = "a\<lparr>settings_file := JArray ?items\<rparr>"
  have "save_reminders a = Done ?a'"
    using assms by (rule save_reminders_dumpable)
  moreover have "list_all has_datetime (reminders a'')
                 \<and> length (reminders a'') \<le> length (filter has_datetime (reminders a))"
    if "state_of (load_reminders fromiso tz ?a') = Some a''" for fromiso tz a''
  proof -
    have "list_all aware_due (reminders a'') \<and> length (reminders a'') \<le> length ?items"
      using that by (rule load_reminders_loaded) simp
    moreover have "aware_due r \<Longrightarrow> has_datetime r" for r
      by (auto simp: aware_due_def has_datetime_def split: option.splits)
    ultimately show ?thesis
      by (auto simp: list_all_iff)
  qed
  ultimately show ?thesis
    by (intro exI [of _ ?a']) simp
qed

lemma dumpable_mixed: "list_all dumpable (reminders mixed_app)"
  by (simp add: mixed_app_def dumpable_def tea_def soon_def)

lemma iso_copy_tea:
  "iso_copy tea
   = [(''id'', PNum 2), (''text'', PStr (str ''tea'')),
      (''dateTime'', PStr (str ''2024-06-01T17:00:00+00:00'')), (''notified'', PBool False)]"
  by (simp add: iso_copy_def tea_def get_datetime_def isoformat_teatime del: isoformat.simps)

lemma to_save_mixed:
  "map JObject (map iso_copy (filter has_datetime (reminders mixed_app))) = [JObject (iso_copy tea)]"
  by (simp add: mixed_app_def has_datetime_def get_datetime_def tea_def soon_def)

theorem save_reminders_omits_invalid_witness:
  "list_all dumpable (reminders mixed_app)
   \<and> (\<exists>a'. save_reminders mixed_app = Done a'
          \<and> reminders a' = [tea, soon]
          \<and> settings_file a'
              = JArray [JObject [(''id'', PNum 2), (''text'', PStr (str ''tea'')),
                                 (''dateTime'', PStr (str ''2024-06-01T17:00:00+00:00'')),
                                 (''notified'', PBool False)]])"
proof -
  obtain a' where f1: "save_reminders mixed_app = Done a'"
      and f2: "reminders a' = reminders mixed_app"
      and f3: "settings_file a'
           = JArray (map JObject (map iso_copy (filter has_datetime (reminders mixed_app))))"
    using save_reminders_omits_invalid [OF dumpable_mixed] by blast
  have "reminders a' = [tea, soon]"
    using f2 by (simp add: mixed_app_def)
  moreover have "settings_file a'
          = JArray [JObject [(''id'', PNum 2), (''text'', PStr (str ''tea'')),
                             (''dateTime'', PStr (str ''2024-06-01T17:00:00+00:00'')),
                             (''notified'', PBool False)]]"
    using f3 by (simp only: to_save_mixed iso_copy_tea)
  ultimately show ?thesis
    using f1 dumpable_mixed by blast
qed

section \<open>Saving and loading again\<close>

















end
